theory Spec2Isabelle
  imports Main
begin

section \<open>Data model of \<^verbatim>\<open>nornir/beta/core/runner.py\<close>\<close>

text \<open>
  Python values that a task may hand back.  \<open>PyObj\<close> stands for any object that is not a
  \<^verbatim>\<open>Result\<close> (the string is only a label).  A \<^verbatim>\<open>Result\<close> instance reaches the
  runner in one of two ways: \<open>PyResult r\<close> is an object the invocation has just constructed,
  given by its field values; \<open>PyRef a\<close> is a reference to a \<^verbatim>\<open>Result\<close> object that
  already lives in the store at address \<open>a\<close> (for instance a module-level object that the
  task returns again and again).
\<close>

type_synonym addr = nat

record Host =
  name :: string
  attrs :: "(string \<times> string) list"

text \<open>
  \<^verbatim>\<open>Nornir\<close>: only what the runner reads, namely \<^verbatim>\<open>nornir.inventory.hosts\<close>
  (a dict, kept as the list of its items), \<^verbatim>\<open>nornir.data.failed_hosts\<close> and
  \<^verbatim>\<open>nornir.config.core.num_workers\<close>.
\<close>

record Nornir =
  inventory_hosts :: "(string \<times> Host) list"
  data_failed_hosts :: "string set"
  config_core_num_workers :: int

text \<open>\<^verbatim>\<open>NornirTaskData\<close>; its field \<^verbatim>\<open>name\<close> is \<open>ntd_name\<close> here.\<close>

record NornirTaskData =
  host :: Host
  nornir :: Nornir
  ntd_name :: string

text \<open>
  Exceptions.  \<open>PyException\<close> is an instance of \<^verbatim>\<open>Exception\<close> or of one of its
  subclasses; \<open>PyBaseException\<close> is an instance of a class that derives from
  \<^verbatim>\<open>BaseException\<close> only (\<^verbatim>\<open>KeyboardInterrupt\<close>, \<^verbatim>\<open>SystemExit\<close>,
  \<^verbatim>\<open>GeneratorExit\<close>).  \<open>FutureException exc ntd\<close> is the class of that name in the
  source, a subclass of \<^verbatim>\<open>Exception\<close> with the two fields \<^verbatim>\<open>exc\<close> and \<^verbatim>\<open>ntd\<close>.
\<close>

datatype exc =
    PyException string
  | PyBaseException string
  | FutureException exc NornirTaskData

text \<open>The test made by a clause \<^verbatim>\<open>except Exception\<close>.\<close>

fun isinstance_Exception :: "exc \<Rightarrow> bool" where
  "isinstance_Exception (PyException c) = True"
| "isinstance_Exception (PyBaseException c) = False"
| "isinstance_Exception (FutureException e n) = True"

datatype pyval =
    PyNone
  | PyBool bool
  | PyInt int
  | PyStr string
  | PyObj string
  | PyRef addr
  | PyResult result
and result =
  Result (ntd: NornirTaskData) (data: pyval) (sub_results: "result list")
         (changed: bool) (diff: string) (exception: "exc option") (severity_level: int)

text \<open>The store holds the \<^verbatim>\<open>Result\<close> objects; an address is an index into it.\<close>

type_synonym store = "result list"

type_synonym kwargs = "(string \<times> pyval) list"

definition logging_INFO :: int where
  "logging_INFO = 20"

text \<open>
  The dataclass constructor \<^verbatim>\<open>Result(ntd=..., data=..., exception=...)\<close> with the
  defaults of the other fields.
\<close>

definition Result_init :: "NornirTaskData \<Rightarrow> pyval \<Rightarrow> exc option \<Rightarrow> result" where
  "Result_init n d e = Result n d [] False [] e logging_INFO"

text \<open>The assignment \<^verbatim>\<open>result.ntd = ntd\<close> on the fields of one object.\<close>

fun set_ntd :: "NornirTaskData \<Rightarrow> result \<Rightarrow> result" where
  "set_ntd n (Result n0 d sr c df e sl) = Result n d sr c df e sl"

text \<open>
  \<^verbatim>\<open>AggregatedResults\<close>: a dict from host name to \<^verbatim>\<open>Result\<close> object (an address of
  the store) with the dataclass field \<^verbatim>\<open>name\<close> (\<open>agg_name\<close> here).
\<close>

record AggregatedResults =
  agg_name :: string
  entries :: "string \<rightharpoonup> addr"

subsection \<open>Callables\<close>

text \<open>
  A callable is a plain function (\<^verbatim>\<open>def\<close>), a coroutine function (\<^verbatim>\<open>async def\<close>) or
  an instance of a class with \<^verbatim>\<open>__call__\<close>, which carries the qualified name of its class.
  A task is modelled by what one invocation returns or raises for its arguments.
\<close>

datatype 'f callable =
    Function 'f
  | CoroutineFunction 'f
  | CallableObject string 'f

fun iscoroutinefunction :: "'f callable \<Rightarrow> bool" where
  "iscoroutinefunction (Function f) = False"
| "iscoroutinefunction (CoroutineFunction f) = True"
| "iscoroutinefunction (CallableObject c f) = False"

text \<open>\<^verbatim>\<open>task.__class__.__qualname__\<close>: the class of every function is \<^verbatim>\<open>function\<close>.\<close>

fun class_qualname :: "'f callable \<Rightarrow> string" where
  "class_qualname (Function f) = ''function''"
| "class_qualname (CoroutineFunction f) = ''function''"
| "class_qualname (CallableObject c f) = c"

fun body :: "'f callable \<Rightarrow> 'f" where
  "body (Function f) = f"
| "body (CoroutineFunction f) = f"
| "body (CallableObject c f) = f"

type_synonym task_fn = "NornirTaskData \<Rightarrow> kwargs \<Rightarrow> exc + pyval"

type_synonym task = "task_fn callable"

text \<open>
  The plain call \<^verbatim>\<open>func(ntd=ntd, **kwargs)\<close>.  Calling a coroutine function runs
  nothing of its body: it returns a coroutine object.
\<close>

fun call :: "task \<Rightarrow> NornirTaskData \<Rightarrow> kwargs \<Rightarrow> exc + pyval" where
  "call (Function f) n kw = f n kw"
| "call (CoroutineFunction f) n kw = Inr (PyObj ''coroutine'')"
| "call (CallableObject c f) n kw = f n kw"

text \<open>
  The awaited call \<^verbatim>\<open>await func(ntd, **kwargs)\<close>.  A callable that is not a coroutine
  function is called; what it returns cannot be awaited, which raises \<^verbatim>\<open>TypeError\<close>.
\<close>

fun await_call :: "task \<Rightarrow> NornirTaskData \<Rightarrow> kwargs \<Rightarrow> exc + pyval" where
  "await_call (CoroutineFunction f) n kw = f n kw"
| "await_call t n kw =
     (case body t n kw of
        Inl e \<Rightarrow> Inl e
      | Inr v \<Rightarrow> Inl (PyException ''TypeError''))"

section \<open>The wrappers\<close>

text \<open>
  \<^verbatim>\<open>isinstance(result, Result)\<close>.  A reference denotes a \<^verbatim>\<open>Result\<close> when the
  store has an object at its address.
\<close>

fun isinstance_Result :: "store \<Rightarrow> pyval \<Rightarrow> bool" where
  "isinstance_Result st (PyResult r) = True"
| "isinstance_Result st (PyRef a) = (a < length st)"
| "isinstance_Result st v = False"

text \<open>
  \<^verbatim>\<open>_result_wrapper\<close>.  The function returns the address of the \<^verbatim>\<open>Result\<close> object
  and the store after the call.  In the first branch \<^verbatim>\<open>result.ntd = ntd\<close> is an
  assignment to the object itself: an object of the store is updated in place, an object
  just built by the task enters the store with the new field.  In the second branch a new
  object is made.
\<close>

definition result_wrapper :: "pyval \<Rightarrow> NornirTaskData \<Rightarrow> store \<Rightarrow> addr \<times> store" where
  "result_wrapper res n st =
     (if isinstance_Result st res
      then (case res of
              PyRef a \<Rightarrow> (a, st[a := set_ntd n (st ! a)])
            | PyResult r \<Rightarrow> (length st, st @ [set_ntd n r])
            | _ \<Rightarrow> (length st, st @ [Result_init n res None]))
      else (length st, st @ [Result_init n res None]))"

text \<open>
  \<^verbatim>\<open>_func_wrapper\<close>: \<open>Inr a\<close> is the returned \<^verbatim>\<open>Result\<close>, \<open>Inl e\<close> an exception
  that the clause \<^verbatim>\<open>except Exception\<close> does not catch and that leaves the wrapper.
\<close>

definition func_wrapper ::
  "task \<Rightarrow> NornirTaskData \<Rightarrow> kwargs \<Rightarrow> store \<Rightarrow> (exc + addr) \<times> store" where
  "func_wrapper func n kw st =
     (case call func n kw of
        Inr v \<Rightarrow> (case result_wrapper v n st of (a, st') \<Rightarrow> (Inr a, st'))
      | Inl e \<Rightarrow>
          if isinstance_Exception e
          then (Inr (length st), st @ [Result_init n PyNone (Some e)])
          else (Inl e, st))"

text \<open>\<^verbatim>\<open>_async_func_wrapper\<close>.\<close>

definition async_func_wrapper ::
  "task \<Rightarrow> NornirTaskData \<Rightarrow> kwargs \<Rightarrow> store \<Rightarrow> (exc + addr) \<times> store" where
  "async_func_wrapper func n kw st =
     (case await_call func n kw of
        Inr v \<Rightarrow> (case result_wrapper v n st of (a, st') \<Rightarrow> (Inr a, st'))
      | Inl e \<Rightarrow>
          if isinstance_Exception e
          then (Inr (length st), st @ [Result_init n PyNone (Some e)])
          else (Inl e, st))"

text \<open>
  \<^verbatim>\<open>_futures_wrapper\<close>: the task's value is returned as it is; an \<^verbatim>\<open>Exception\<close> is
  raised again inside \<^verbatim>\<open>FutureException\<close>.
\<close>

definition futures_wrapper :: "task \<Rightarrow> NornirTaskData \<Rightarrow> kwargs \<Rightarrow> exc + pyval" where
  "futures_wrapper t n kw =
     (case await_call t n kw of
        Inr v \<Rightarrow> Inr v
      | Inl e \<Rightarrow> if isinstance_Exception e then Inl (FutureException e n) else Inl e)"

section \<open>\<^verbatim>\<open>TaskRunner\<close>\<close>

text \<open>The attributes \<^verbatim>\<open>self.task\<close>, \<^verbatim>\<open>self.name\<close>, ... of a runner.\<close>

record TaskRunner =
  self_task :: task
  self_name :: string
  self_nornir :: Nornir
  self_num_workers :: int
  self_severity_level :: int
  self_hosts :: "Host list"

text \<open>
  \<^verbatim>\<open>name or task.__class__.__qualname__\<close> with \<^verbatim>\<open>name: str = None\<close>: Python's
  \<^verbatim>\<open>or\<close> yields its left operand when that is true, and \<^verbatim>\<open>None\<close> and the empty
  string are false.
\<close>

fun name_or :: "string option \<Rightarrow> string \<Rightarrow> string" where
  "name_or None d = d"
| "name_or (Some []) d = d"
| "name_or (Some (c # cs)) d = c # cs"

text \<open>The two loops of \<^verbatim>\<open>TaskRunner.__init__\<close> that fill \<^verbatim>\<open>self.hosts\<close>.\<close>

definition select_hosts :: "Nornir \<Rightarrow> bool \<Rightarrow> bool \<Rightarrow> Host list" where
  "select_hosts nr on_good on_failed =
     (if on_good
      then map snd (filter (\<lambda>(nm, h). nm \<notin> data_failed_hosts nr) (inventory_hosts nr))
      else []) @
     (if on_failed
      then map snd (filter (\<lambda>(nm, h). nm \<in> data_failed_hosts nr) (inventory_hosts nr))
      else [])"

text \<open>\<^verbatim>\<open>TaskRunner.__init__\<close>.\<close>

definition TaskRunner_init ::
  "task \<Rightarrow> Nornir \<Rightarrow> string option \<Rightarrow> int \<Rightarrow> bool \<Rightarrow> bool \<Rightarrow> TaskRunner" where
  "TaskRunner_init t nr nm sev on_good on_failed =
     \<lparr> self_task = t,
       self_name = name_or nm (class_qualname t),
       self_nornir = nr,
       self_num_workers = config_core_num_workers nr,
       self_severity_level = sev,
       self_hosts = select_hosts nr on_good on_failed \<rparr>"

text \<open>\<^verbatim>\<open>NornirTaskData(host=h, nornir=self.nornir, name=self.name)\<close>.\<close>

definition mk_ntd :: "TaskRunner \<Rightarrow> Host \<Rightarrow> NornirTaskData" where
  "mk_ntd self h = \<lparr> host = h, nornir = self_nornir self, ntd_name = self_name self \<rparr>"

text \<open>
  A call that does not return either raises or never comes back.
\<close>

datatype failure = Raised exc | Hang

text \<open>
  The runner passes its keyword arguments on as \<^verbatim>\<open>_func_wrapper(task, ntd, **kwargs)\<close>
  and \<^verbatim>\<open>_async_func_wrapper(task, ntd, **kwargs)\<close>.  Both wrappers have the parameters
  \<^verbatim>\<open>(func, ntd, *args, **kwargs)\<close>: a keyword named \<^verbatim>\<open>func\<close> or \<^verbatim>\<open>ntd\<close> is a
  second value for a parameter, and the call raises \<^verbatim>\<open>TypeError\<close> before the body of the
  wrapper is entered.
\<close>

definition clashes :: "kwargs \<Rightarrow> bool" where
  "clashes kw = (''func'' \<in> set (map fst kw) \<or> ''ntd'' \<in> set (map fst kw))"

definition call_func_wrapper ::
  "task \<Rightarrow> NornirTaskData \<Rightarrow> kwargs \<Rightarrow> store \<Rightarrow> (exc + addr) \<times> store" where
  "call_func_wrapper func n kw st =
     (if clashes kw then (Inl (PyException ''TypeError''), st) else func_wrapper func n kw st)"

definition call_async_func_wrapper ::
  "task \<Rightarrow> NornirTaskData \<Rightarrow> kwargs \<Rightarrow> store \<Rightarrow> (exc + addr) \<times> store" where
  "call_async_func_wrapper func n kw st =
     (if clashes kw then (Inl (PyException ''TypeError''), st)
      else async_func_wrapper func n kw st)"

text \<open>
  One job per host, all of them run, each with its own outcome: what the workers of the
  pool and of the executor do with the submitted calls.  The jobs are taken one after the
  other, in the order of the hosts; the number of workers only bounds how many of them are
  in progress together.
\<close>

fun submit_all ::
  "(Host \<Rightarrow> store \<Rightarrow> (exc + addr) \<times> store) \<Rightarrow> Host list \<Rightarrow> store \<Rightarrow> (exc + addr) list \<times> store" where
  "submit_all w [] st = ([], st)"
| "submit_all w (h # hs) st =
     (case w h st of
        (r, st') \<Rightarrow> (case submit_all w hs st' of (rs, st'') \<Rightarrow> (r # rs, st'')))"

text \<open>
  A worker of \<^verbatim>\<open>multiprocessing.dummy.Pool\<close> catches \<^verbatim>\<open>Exception\<close> and delivers it as
  the outcome of its job.  An exception outside \<^verbatim>\<open>Exception\<close> ends the worker with no
  outcome for the job, and \<^verbatim>\<open>pool.join()\<close> waits for that outcome for ever.
\<close>

definition undelivered :: "exc + addr \<Rightarrow> bool" where
  "undelivered j = (case j of Inl e \<Rightarrow> \<not> isinstance_Exception e | Inr a \<Rightarrow> False)"

text \<open>
  \<^verbatim>\<open>[r.get() for r in result_pool]\<close>: \<^verbatim>\<open>r.get()\<close> returns what the job returned or
  raises the exception that the job delivered.
\<close>

fun get_all :: "(exc + addr) list \<Rightarrow> failure + addr list" where
  "get_all [] = Inr []"
| "get_all (Inl e # js) = Inl (Raised e)"
| "get_all (Inr a # js) =
     (case get_all js of
        Inl f \<Rightarrow> Inl f
      | Inr as \<Rightarrow> Inr (a # as))"

text \<open>
  \<^verbatim>\<open>TaskRunner._run_sync\<close>.  \<^verbatim>\<open>Pool(processes=self.num_workers)\<close> raises
  \<^verbatim>\<open>ValueError\<close> for a number below 1, before any host is looked at.
\<close>

definition run_sync :: "TaskRunner \<Rightarrow> kwargs \<Rightarrow> store \<Rightarrow> (failure + addr list) \<times> store" where
  "run_sync self kw st =
     (if self_num_workers self < 1
      then (Inl (Raised (PyException ''ValueError'')), st)
      else (case submit_all (\<lambda>h. call_func_wrapper (self_task self) (mk_ntd self h) kw)
                   (self_hosts self) st of
              (jobs, st') \<Rightarrow>
                if list_ex undelivered jobs then (Inl Hang, st') else (get_all jobs, st')))"

text \<open>
  Running one coroutine per host and collecting the results in the order of the hosts, as
  \<^verbatim>\<open>loop.run_until_complete(asyncio.gather(...))\<close> does, the coroutines taken one after
  the other.  \<open>Inl e\<close>: the exception \<open>e\<close> has left a wrapper, which ends the loop, and no
  list of results is returned.
\<close>

fun collect ::
  "(Host \<Rightarrow> store \<Rightarrow> (exc + addr) \<times> store) \<Rightarrow> Host list \<Rightarrow> store \<Rightarrow> (exc + addr list) \<times> store" where
  "collect w [] st = (Inr [], st)"
| "collect w (h # hs) st =
     (case w h st of
        (Inl e, st') \<Rightarrow> (Inl e, st')
      | (Inr a, st') \<Rightarrow>
          (case collect w hs st' of
             (Inl e, st'') \<Rightarrow> (Inl e, st'')
           | (Inr as, st'') \<Rightarrow> (Inr (a # as), st'')))"

text \<open>\<^verbatim>\<open>TaskRunner._run_async\<close>.\<close>

definition run_async :: "TaskRunner \<Rightarrow> kwargs \<Rightarrow> store \<Rightarrow> (failure + addr list) \<times> store" where
  "run_async self kw st =
     (case collect (\<lambda>h. call_async_func_wrapper (self_task self) (mk_ntd self h) kw)
             (self_hosts self) st of
        (Inl e, st') \<Rightarrow> (Inl (Raised e), st')
      | (Inr res, st') \<Rightarrow> (Inr res, st'))"

text \<open>
  The loop \<^verbatim>\<open>for r in result: agg_results[r.ntd.host.name] = r\<close>; the fields of
  \<^verbatim>\<open>r\<close> are read from the store.
\<close>

fun fill :: "store \<Rightarrow> addr list \<Rightarrow> AggregatedResults \<Rightarrow> AggregatedResults" where
  "fill st [] agg = agg"
| "fill st (r # rs) agg =
     fill st rs (agg\<lparr>entries := (entries agg)(name (host (ntd (st ! r))) \<mapsto> r)\<rparr>)"

text \<open>
  \<^verbatim>\<open>TaskRunner.run\<close>; \<open>run_result\<close> is its local variable \<^verbatim>\<open>result\<close>.
\<close>

definition run_result :: "TaskRunner \<Rightarrow> kwargs \<Rightarrow> store \<Rightarrow> (failure + addr list) \<times> store" where
  "run_result self kw st =
     (if iscoroutinefunction (self_task self)
      then run_async self kw st
      else run_sync self kw st)"

definition run :: "TaskRunner \<Rightarrow> kwargs \<Rightarrow> store \<Rightarrow> (failure + AggregatedResults) \<times> store" where
  "run self kw st =
     (case run_result self kw st of
        (Inl e, st') \<Rightarrow> (Inl e, st')
      | (Inr res, st') \<Rightarrow>
          (Inr (fill st' res \<lparr> agg_name = self_name self, entries = Map.empty \<rparr>), st'))"

text \<open>
  \<^verbatim>\<open>TaskRunner.async_with_futures\<close>: one pending handle per host, each modelled by
  what it resolves to, a value or a raised exception.
\<close>

definition async_with_futures :: "TaskRunner \<Rightarrow> kwargs \<Rightarrow> (exc + pyval) list" where
  "async_with_futures self kw =
     map (\<lambda>h. futures_wrapper (self_task self) (mk_ntd self h) kw) (self_hosts self)"

text \<open>
  \<^verbatim>\<open>TaskRunner.sync_with_futures\<close>: the executor runs \<^verbatim>\<open>_func_wrapper\<close> for each
  host; each handle resolves to what that call returns or raises.
\<close>

definition sync_with_futures :: "TaskRunner \<Rightarrow> kwargs \<Rightarrow> store \<Rightarrow> (exc + addr) list \<times> store" where
  "sync_with_futures self kw st =
     submit_all (\<lambda>h. func_wrapper (self_task self) (mk_ntd self h) kw) (self_hosts self) st"

section \<open>\<^verbatim>\<open>with_retries\<close>\<close>

text \<open>
  The loop \<^verbatim>\<open>for i in range(1, self.attempts + 1)\<close> of both wrappers.  \<open>f i\<close> is the
  call \<^verbatim>\<open>func(*args, **kwargs, attempt=i)\<close>.  Beside what the wrapper returns or raises,
  the function gives the list of the values of \<^verbatim>\<open>attempt\<close> with which \<^verbatim>\<open>func\<close> was
  invoked, in order.  Falling out of the loop returns \<^verbatim>\<open>None\<close>.
\<close>

fun retry_loop ::
  "int \<Rightarrow> (int \<Rightarrow> exc + pyval) \<Rightarrow> int list \<Rightarrow> int list \<Rightarrow> (exc + pyval) \<times> int list" where
  "retry_loop attempts f [] calls = (Inr PyNone, calls)"
| "retry_loop attempts f (i # rest) calls =
     (case f i of
        Inr v \<Rightarrow> (Inr v, calls @ [i])
      | Inl e \<Rightarrow>
          if isinstance_Exception e
          then (if i + 1 = attempts
                then (Inl e, calls @ [i])
                else retry_loop attempts f rest (calls @ [i]))
          else (Inl e, calls @ [i]))"

type_synonym 'a retried_fn = "'a \<Rightarrow> kwargs \<Rightarrow> int \<Rightarrow> exc + pyval"

definition sync_wrapper_run ::
  "int \<Rightarrow> 'a retried_fn \<Rightarrow> 'a \<Rightarrow> kwargs \<Rightarrow> (exc + pyval) \<times> int list" where
  "sync_wrapper_run attempts func args kw =
     retry_loop attempts (\<lambda>i. func args kw i) [1..attempts] []"

definition async_wrapper_run ::
  "int \<Rightarrow> 'a retried_fn \<Rightarrow> 'a \<Rightarrow> kwargs \<Rightarrow> (exc + pyval) \<times> int list" where
  "async_wrapper_run attempts func args kw =
     retry_loop attempts (\<lambda>i. func args kw i) [1..attempts] []"

text \<open>
  \<^verbatim>\<open>with_retries.sync_wrapper\<close> and \<^verbatim>\<open>with_retries.async_wrapper\<close>: the callable
  \<^verbatim>\<open>wrapper\<close> that each returns, and the invocations of \<^verbatim>\<open>func\<close> that one call of
  it makes.
\<close>

definition sync_wrapper :: "int \<Rightarrow> 'a retried_fn \<Rightarrow> 'a \<Rightarrow> kwargs \<Rightarrow> exc + pyval" where
  "sync_wrapper attempts func args kw = fst (sync_wrapper_run attempts func args kw)"

definition sync_wrapper_calls :: "int \<Rightarrow> 'a retried_fn \<Rightarrow> 'a \<Rightarrow> kwargs \<Rightarrow> int list" where
  "sync_wrapper_calls attempts func args kw = snd (sync_wrapper_run attempts func args kw)"

definition async_wrapper :: "int \<Rightarrow> 'a retried_fn \<Rightarrow> 'a \<Rightarrow> kwargs \<Rightarrow> exc + pyval" where
  "async_wrapper attempts func args kw = fst (async_wrapper_run attempts func args kw)"

definition async_wrapper_calls :: "int \<Rightarrow> 'a retried_fn \<Rightarrow> 'a \<Rightarrow> kwargs \<Rightarrow> int list" where
  "async_wrapper_calls attempts func args kw = snd (async_wrapper_run attempts func args kw)"

text \<open>
  \<^verbatim>\<open>with_retries(attempts).__call__(func)\<close>.  The wrapper of a coroutine function is
  itself declared \<^verbatim>\<open>async def\<close>; the other one is a plain function.
\<close>

fun with_retries ::
  "int \<Rightarrow> 'a retried_fn callable \<Rightarrow> ('a \<Rightarrow> kwargs \<Rightarrow> exc + pyval) callable" where
  "with_retries attempts (CoroutineFunction f) = CoroutineFunction (async_wrapper attempts f)"
| "with_retries attempts (Function f) = Function (sync_wrapper attempts f)"
| "with_retries attempts (CallableObject c f) = Function (sync_wrapper attempts f)"

text \<open>The invocations of the underlying callable made by one call of the decorated one.\<close>

fun with_retries_calls :: "int \<Rightarrow> 'a retried_fn callable \<Rightarrow> 'a \<Rightarrow> kwargs \<Rightarrow> int list" where
  "with_retries_calls attempts (CoroutineFunction f) = async_wrapper_calls attempts f"
| "with_retries_calls attempts (Function f) = sync_wrapper_calls attempts f"
| "with_retries_calls attempts (CallableObject c f) = sync_wrapper_calls attempts f"

section \<open>\<^verbatim>\<open>nornir/plugins/tasks/text/template_file.py\<close>\<close>

text \<open>
  \<^verbatim>\<open>FiltersDict = Optional[Dict[str, Callable[..., str]]]\<close>: a dict is the list of its
  items, the filter functions are of a type \<open>'f\<close> that is left open.
\<close>

type_synonym 'f FiltersDict = "(string \<times> 'f) list option"

text \<open>Truth value of \<^verbatim>\<open>None\<close> and of a dict: only a dict with an item is true.\<close>

fun truthy :: "'f FiltersDict \<Rightarrow> bool" where
  "truthy None = False"
| "truthy (Some []) = False"
| "truthy (Some (x # xs)) = True"

definition py_or :: "'f FiltersDict \<Rightarrow> 'f FiltersDict \<Rightarrow> 'f FiltersDict" where
  "py_or a b = (if truthy a then a else b)"

text \<open>
  The \<^verbatim>\<open>Task\<close> of \<^verbatim>\<open>nornir.core.task\<close> as far as \<^verbatim>\<open>template_file\<close> reads it:
  \<^verbatim>\<open>task.host\<close> and \<^verbatim>\<open>task.nornir.config.jinja_filters\<close>; and the \<^verbatim>\<open>Result\<close> of
  that module with the two fields that are set.
\<close>

record 'f Task =
  task_host :: Host
  task_nornir_config_jinja_filters :: "'f FiltersDict"

record core_Result =
  result_host :: Host
  result_result :: string

text \<open>
  \<^verbatim>\<open>template_file\<close>.  \<^verbatim>\<open>merge_two_dicts\<close> and \<^verbatim>\<open>jinja_helper.render_from_file\<close>
  are imported from \<^verbatim>\<open>nornir.core.helpers\<close> and are parameters here; rendering may
  raise.
\<close>

definition template_file ::
  "(Host \<Rightarrow> kwargs \<Rightarrow> 'm) \<Rightarrow>
   (string \<Rightarrow> string \<Rightarrow> Host \<Rightarrow> 'f FiltersDict \<Rightarrow> 'm \<Rightarrow> exc + string) \<Rightarrow>
   'f Task \<Rightarrow> string \<Rightarrow> string \<Rightarrow> 'f FiltersDict \<Rightarrow> kwargs \<Rightarrow> exc + core_Result" where
  "template_file merge_two_dicts render_from_file task template path jinja_filters kw =
     (let jinja_filters' =
            py_or (py_or jinja_filters (Some [])) (task_nornir_config_jinja_filters task);
          merged = merge_two_dicts (task_host task) kw
      in case render_from_file template path (task_host task) jinja_filters' merged of
           Inl e \<Rightarrow> Inl e
         | Inr text \<Rightarrow> Inr \<lparr> result_host = task_host task, result_result = text \<rparr>)"

section \<open>Notions used in the statements\<close>

text \<open>
  The \<^verbatim>\<open>Result\<close> object that a value denotes in a store, if it denotes one.
\<close>

fun deref :: "store \<Rightarrow> pyval \<Rightarrow> result option" where
  "deref st (PyResult r) = Some r"
| "deref st (PyRef a) = (if a < length st then Some (st ! a) else None)"
| "deref st v = None"

text \<open>
  The invocation of the task that \<^verbatim>\<open>run\<close> makes for a host: awaited by
  \<^verbatim>\<open>_async_func_wrapper\<close> when the task is a coroutine function, called by
  \<^verbatim>\<open>_func_wrapper\<close> otherwise.
\<close>

definition invoke :: "TaskRunner \<Rightarrow> kwargs \<Rightarrow> Host \<Rightarrow> exc + pyval" where
  "invoke self kw h =
     (if iscoroutinefunction (self_task self)
      then await_call (self_task self) (mk_ntd self h) kw
      else call (self_task self) (mk_ntd self h) kw)"

text \<open>
  What \<^verbatim>\<open>_func_wrapper\<close> and \<^verbatim>\<open>_async_func_wrapper\<close> have in common: the
  \<^verbatim>\<open>try\<close> statement applied to what the invocation returned or raised.
\<close>

definition guarded :: "(exc + pyval) \<Rightarrow> NornirTaskData \<Rightarrow> store \<Rightarrow> (exc + addr) \<times> store" where
  "guarded out n st =
     (case out of
        Inr v \<Rightarrow> (case result_wrapper v n st of (a, st') \<Rightarrow> (Inr a, st'))
      | Inl e \<Rightarrow>
          if isinstance_Exception e
          then (Inr (length st), st @ [Result_init n PyNone (Some e)])
          else (Inl e, st))"

subsection \<open>An inventory of three hosts and some tasks\<close>

text \<open>
  Three hosts, of which \<^verbatim>\<open>h3\<close> is marked as failed; a task that raises
  \<^verbatim>\<open>ValueError\<close> for \<^verbatim>\<open>h2\<close> and returns a string otherwise; a task that raises
  \<^verbatim>\<open>SystemExit\<close> for \<^verbatim>\<open>h1\<close>; a task that always raises \<^verbatim>\<open>ValueError\<close>;
  a task that returns the same \<^verbatim>\<open>Result\<close> object, kept at address 0 of the store, for
  every host.
\<close>

definition ex_host1 :: Host where "ex_host1 = \<lparr> name = ''h1'', attrs = [] \<rparr>"
definition ex_host2 :: Host where "ex_host2 = \<lparr> name = ''h2'', attrs = [] \<rparr>"
definition ex_host3 :: Host where "ex_host3 = \<lparr> name = ''h3'', attrs = [] \<rparr>"

definition ex_nornir :: Nornir where
  "ex_nornir = \<lparr> inventory_hosts = [(''h1'', ex_host1), (''h2'', ex_host2), (''h3'', ex_host3)],
                 data_failed_hosts = {''h3''}, config_core_num_workers = 20 \<rparr>"

definition ex_mixed_fn :: task_fn where
  "ex_mixed_fn n kw =
     (if name (host n) = ''h2'' then Inl (PyException ''ValueError'') else Inr (PyStr ''ok''))"

definition ex_exit_fn :: task_fn where
  "ex_exit_fn n kw =
     (if name (host n) = ''h1'' then Inl (PyBaseException ''SystemExit'') else Inr (PyStr ''ok''))"

definition ex_raise_fn :: task_fn where
  "ex_raise_fn n kw = Inl (PyException ''ValueError'')"

definition ex_shared_fn :: task_fn where
  "ex_shared_fn n kw = Inr (PyRef 0)"

definition ex_store :: store where
  "ex_store = [Result_init \<lparr> host = ex_host3, nornir = ex_nornir, ntd_name = ''earlier'' \<rparr>
                 (PyStr ''cached'') None]"

definition ex_runner :: "task \<Rightarrow> TaskRunner" where
  "ex_runner t = TaskRunner_init t ex_nornir None logging_INFO True False"

definition ex_runner_all :: "task \<Rightarrow> TaskRunner" where
  "ex_runner_all t = TaskRunner_init t ex_nornir None logging_INFO True True"

section \<open>The retry wrapper\<close>

lemma retry_loop_always_raises:
  assumes raises: "\<And>i. \<exists>e. f i = Inl e \<and> isinstance_Exception e"
  shows "1 \<le> k \<Longrightarrow> k + 1 \<le> attempts \<Longrightarrow> n = nat (attempts - 1 - k) \<Longrightarrow>
     retry_loop attempts f [k..attempts] calls = (f (attempts - 1), calls @ [k..attempts - 1])"
proof (induction n arbitrary: k calls)
  case 0
  then have k: "k = attempts - 1" by simp
  obtain e where e: "f k = Inl e" "isinstance_Exception e" using raises by blast
  have "[k..attempts] = k # [k + 1..attempts]" using 0 by (simp add: upto.simps)
  then show ?case using e k by (simp add: upto.simps)
next
  case (Suc n)
  obtain e where e: "f k = Inl e" "isinstance_Exception e" using raises by blast
  have u: "[k..attempts] = k # [k + 1..attempts]" using Suc.prems by (simp add: upto.simps)
  have u2: "[k..attempts - 1] = k # [k + 1..attempts - 1]"
    using Suc.prems by (simp add: upto.simps)
  have ne: "k + 1 \<noteq> attempts" using Suc.prems by simp
  have "retry_loop attempts f [k + 1..attempts] (calls @ [k]) =
          (f (attempts - 1), (calls @ [k]) @ [k + 1..attempts - 1])"
    using Suc.prems by (intro Suc.IH) auto
  then show ?case using e ne u u2 by simp
qed

lemma retry_loop_from_one:
  assumes "\<And>i. \<exists>e. f i = Inl e \<and> isinstance_Exception e" and "2 \<le> attempts"
  shows "retry_loop attempts f [1..attempts] [] = (f (attempts - 1), [1..attempts - 1])"
  using retry_loop_always_raises [of f 1 attempts "nat (attempts - 2)" "[]"] assms by simp

text \<open>
  Claim C2, as the code has it.  Let the underlying callable raise an instance of
  \<^verbatim>\<open>Exception\<close> at every invocation and
  let \<open>attempts\<close> be at least 2.  Then the callable made by \<^verbatim>\<open>with_retries(attempts)\<close>
  invokes it with \<^verbatim>\<open>attempt\<close> = 1, 2, ..., \<open>attempts - 1\<close> and no further, and raises
  the exception of the invocation with \<^verbatim>\<open>attempt\<close> = \<open>attempts - 1\<close>: the invocation
  with \<^verbatim>\<open>attempt\<close> = \<open>attempts\<close> is never made.  For \<^verbatim>\<open>with_retries(3)\<close> these are
  the two invocations with \<^verbatim>\<open>attempt\<close> 1 and 2.
\<close>

theorem with_retries_raises_one_attempt_early:
  assumes "2 \<le> attempts"
    and "\<forall>i. \<exists>e. body c args kw i = Inl e \<and> isinstance_Exception e"
  shows "with_retries_calls attempts c args kw = [1..attempts - 1]
       \<and> body (with_retries attempts c) args kw = body c args kw (attempts - 1)
       \<and> attempts \<notin> set (with_retries_calls attempts c args kw)
       \<and> (attempts = 3 \<longrightarrow> with_retries_calls attempts c args kw = [1, 2])"
proof -
  have r: "\<And>i. \<exists>e. body c args kw i = Inl e \<and> isinstance_Exception e"
    using assms(2) by blast
  have loop: "retry_loop attempts (\<lambda>i. body c args kw i) [1..attempts] [] =
                (body c args kw (attempts - 1), [1..attempts - 1])"
    using retry_loop_from_one [of "\<lambda>i. body c args kw i" attempts] r assms(1) by simp
  have calls: "with_retries_calls attempts c args kw = [1..attempts - 1]"
    using loop
    by (cases c)
       (simp_all add: sync_wrapper_calls_def async_wrapper_calls_def
          sync_wrapper_run_def async_wrapper_run_def)
  have res: "body (with_retries attempts c) args kw = body c args kw (attempts - 1)"
    using loop
    by (cases c)
       (simp_all add: sync_wrapper_def async_wrapper_def
          sync_wrapper_run_def async_wrapper_run_def)
  have three: "[1..(3::int) - 1] = [1, 2]"
    by (simp add: upto_rec1)
  have notin: "attempts \<notin> set [1..attempts - 1]" by simp
  show ?thesis using calls res three notin by auto
qed

theorem with_retries_raises_one_attempt_early_witness:
  "(2::int) \<le> 3
   \<and> (\<forall>i. \<exists>e. (\<lambda>(a::unit) (kw::kwargs) (i::int). Inl (PyException ''ValueError'') :: exc + pyval)
                    () [] i = Inl e \<and> isinstance_Exception e)
   \<and> with_retries_calls 3
        (Function (\<lambda>(a::unit) (kw::kwargs) (i::int). Inl (PyException ''ValueError''))) () [] = [1, 2]
   \<and> body (with_retries 3
        (Function (\<lambda>(a::unit) (kw::kwargs) (i::int). Inl (PyException ''ValueError'')))) () []
       = Inl (PyException ''ValueError'')"
  using with_retries_raises_one_attempt_early
    [of 3 "Function (\<lambda>(a::unit) (kw::kwargs) (i::int). Inl (PyException ''ValueError''))" "()" "[]"]
  by (simp add: upto_rec1)

text \<open>
  The claim C2 as stated fails for a task that raises, at every invocation, an exception that
  is not an instance of \<^verbatim>\<open>Exception\<close>: \<^verbatim>\<open>except Exception\<close> does not catch it, and
  \<^verbatim>\<open>with_retries(3)\<close> invokes the task once, not twice.
\<close>

theorem with_retries_exit_invoked_once:
  "with_retries_calls 3
     (Function (\<lambda>(a::unit) (kw::kwargs) (i::int). Inl (PyBaseException ''SystemExit''))) () [] = [1]
   \<and> body (with_retries 3
        (Function (\<lambda>(a::unit) (kw::kwargs) (i::int). Inl (PyBaseException ''SystemExit'')))) () []
       = Inl (PyBaseException ''SystemExit'')"
  by (simp add: sync_wrapper_calls_def sync_wrapper_def sync_wrapper_run_def upto_rec1)

text \<open>
  Claim C9, as the code has it.  The callable made by \<^verbatim>\<open>with_retries(1)\<close> invokes the
  underlying callable once, with \<^verbatim>\<open>attempt\<close> = 1.  When that invocation raises an
  instance of \<^verbatim>\<open>Exception\<close>, the
  test \<^verbatim>\<open>i + 1 == self.attempts\<close> reads \<open>2 = 1\<close>: nothing is raised again, nothing is
  tried again, and the call returns \<^verbatim>\<open>None\<close>.
\<close>

theorem with_retries_one_swallows:
  "with_retries_calls 1 c args kw = [1]
   \<and> (\<forall>e. body c args kw 1 = Inl e \<and> isinstance_Exception e
          \<longrightarrow> body (with_retries 1 c) args kw = Inr PyNone)"
proof -
  have calls: "with_retries_calls 1 c args kw = [1]"
    by (cases c; cases "body c args kw 1")
       (auto simp: sync_wrapper_calls_def async_wrapper_calls_def
          sync_wrapper_run_def async_wrapper_run_def upto.simps)
  have res: "body (with_retries 1 c) args kw = Inr PyNone"
    if "body c args kw 1 = Inl e" "isinstance_Exception e" for e
    using that
    by (cases c)
       (auto simp: sync_wrapper_def async_wrapper_def
          sync_wrapper_run_def async_wrapper_run_def upto.simps)
  show ?thesis using calls res by blast
qed

theorem with_retries_one_swallows_witness:
  "with_retries_calls 1
     (CoroutineFunction (\<lambda>(a::unit) (kw::kwargs) (i::int). Inl (PyException ''ValueError''))) () []
     = [1]
   \<and> body (with_retries 1
        (CoroutineFunction (\<lambda>(a::unit) (kw::kwargs) (i::int). Inl (PyException ''ValueError''))))
        () [] = Inr PyNone"
  using with_retries_one_swallows
    [of "CoroutineFunction (\<lambda>(a::unit) (kw::kwargs) (i::int). Inl (PyException ''ValueError''))"
        "()" "[]"]
  by simp

text \<open>
  The claim C9 as stated fails when the one invocation raises an exception that is not an
  instance of \<^verbatim>\<open>Exception\<close>: the wrapper does not catch it, and the call raises it
  instead of returning \<^verbatim>\<open>None\<close>.
\<close>

theorem with_retries_one_exit_raises:
  "with_retries_calls 1
     (Function (\<lambda>(a::unit) (kw::kwargs) (i::int). Inl (PyBaseException ''SystemExit''))) () [] = [1]
   \<and> body (with_retries 1
        (Function (\<lambda>(a::unit) (kw::kwargs) (i::int). Inl (PyBaseException ''SystemExit'')))) () []
       = Inl (PyBaseException ''SystemExit'')"
  by (simp add: sync_wrapper_calls_def sync_wrapper_def sync_wrapper_run_def upto_rec1)

section \<open>\<^verbatim>\<open>template_file\<close>\<close>

text \<open>
  Claim C10.  \<^verbatim>\<open>template_file\<close> called with the empty dict for \<^verbatim>\<open>jinja_filters\<close>
  does what it does when called with \<^verbatim>\<open>None\<close>: in both calls the filters handed to
  the renderer are \<^verbatim>\<open>task.nornir.config.jinja_filters\<close>.
\<close>

theorem template_file_empty_filters:
  "template_file m r task template path (Some []) kw =
     template_file m r task template path None kw
   \<and> template_file m r task template path None kw =
     (case r template path (task_host task) (task_nornir_config_jinja_filters task)
             (m (task_host task) kw) of
        Inl e \<Rightarrow> Inl e
      | Inr text \<Rightarrow> Inr \<lparr> result_host = task_host task, result_result = text \<rparr>)"
  by (simp add: template_file_def py_or_def)

section \<open>Properties of the wrappers\<close>

lemma func_wrapper_guarded: "func_wrapper t n kw = guarded (call t n kw) n"
  by (rule ext) (simp add: func_wrapper_def guarded_def)

lemma async_func_wrapper_guarded: "async_func_wrapper t n kw = guarded (await_call t n kw) n"
  by (rule ext) (simp add: async_func_wrapper_def guarded_def)

lemma ntd_set_ntd [simp]: "ntd (set_ntd n r) = n"
  by (cases r) simp

lemma ntd_Result_init [simp]: "ntd (Result_init n d e) = n"
  by (simp add: Result_init_def)

lemma set_ntd_fields [simp]:
  "data (set_ntd n r) = data r" "sub_results (set_ntd n r) = sub_results r"
  "changed (set_ntd n r) = changed r" "diff (set_ntd n r) = diff r"
  "exception (set_ntd n r) = exception r" "severity_level (set_ntd n r) = severity_level r"
  by (cases r; simp)+

lemma set_ntd_idem [simp]: "set_ntd n (set_ntd n r) = set_ntd n r"
  by (cases r) simp

lemma host_mk_ntd [simp]: "host (mk_ntd self h) = h"
  by (simp add: mk_ntd_def)

lemma result_wrapper_frame:
  assumes "result_wrapper v n st = (a, st')"
  shows "a < length st' \<and> ntd (st' ! a) = n \<and> length st \<le> length st'
         \<and> (\<forall>b. b < length st \<longrightarrow> b \<noteq> a \<longrightarrow> st' ! b = st ! b)"
  using assms
  by (cases v) (auto simp: result_wrapper_def nth_append split: if_splits)

lemma guarded_frame:
  assumes "guarded out n st = (Inr a, st')"
  shows "a < length st' \<and> ntd (st' ! a) = n \<and> length st \<le> length st'
         \<and> (\<forall>b. b < length st \<longrightarrow> b \<noteq> a \<longrightarrow> st' ! b = st ! b)"
proof (cases out)
  case (Inl e)
  then show ?thesis using assms by (auto simp: guarded_def nth_append split: if_splits)
next
  case (Inr v)
  obtain a1 st1 where rw: "result_wrapper v n st = (a1, st1)" by (cases "result_wrapper v n st")
  with Inr assms have "a1 = a" "st1 = st'" by (simp_all add: guarded_def)
  with result_wrapper_frame [OF rw] show ?thesis by simp
qed

lemma guarded_plain:
  "\<not> isinstance_Result st v \<Longrightarrow>
     guarded (Inr v) n st = (Inr (length st), st @ [Result_init n v None])"
  by (simp add: guarded_def result_wrapper_def)

lemma guarded_returns:
  "(\<forall>e. out = Inl e \<longrightarrow> isinstance_Exception e) \<Longrightarrow> \<exists>a st'. guarded out n st = (Inr a, st')"
  by (cases out) (auto simp: guarded_def split: prod.splits)

lemma guarded_content:
  assumes "guarded out n st = (Inr a, st')"
  shows "(\<forall>e. out = Inl e \<longrightarrow> exception (st' ! a) = Some e \<and> data (st' ! a) = PyNone)
       \<and> (\<forall>v. out = Inr v \<longrightarrow> (\<forall>s. \<not> isinstance_Result s v) \<longrightarrow>
              data (st' ! a) = v \<and> exception (st' ! a) = None)"
proof (cases out)
  case (Inl e)
  then show ?thesis using assms
    by (auto simp: guarded_def Result_init_def split: if_splits)
next
  case (Inr v)
  show ?thesis
  proof (cases "\<forall>s. \<not> isinstance_Result s v")
    case True
    then have "\<not> isinstance_Result st v" by blast
    then show ?thesis using assms Inr by (auto simp: guarded_plain Result_init_def)
  next
    case False
    then show ?thesis using Inr by blast
  qed
qed

lemmas ex_defs = ex_host1_def ex_host2_def ex_host3_def ex_nornir_def ex_mixed_fn_def
  ex_exit_fn_def ex_raise_fn_def ex_shared_fn_def ex_store_def ex_runner_def ex_runner_all_def
  TaskRunner_init_def select_hosts_def mk_ntd_def

lemmas run_defs = run_def run_result_def run_sync_def run_async_def call_func_wrapper_def
  call_async_func_wrapper_def clashes_def undelivered_def func_wrapper_def
  async_func_wrapper_def result_wrapper_def Result_init_def

text \<open>
  Claim C6.  When the task returns for host \<open>h\<close> a value \<open>v\<close> that is not a
  \<^verbatim>\<open>Result\<close>, both wrappers make a new \<^verbatim>\<open>Result\<close> whose \<^verbatim>\<open>data\<close> is
  \<open>v\<close>, whose \<^verbatim>\<open>exception\<close> is \<^verbatim>\<open>None\<close> and whose \<^verbatim>\<open>ntd\<close> is the
  \<^verbatim>\<open>NornirTaskData\<close> of this invocation, with \<^verbatim>\<open>ntd.host\<close> equal to \<open>h\<close>.
\<close>

theorem plain_value_wrapped:
  assumes "\<not> isinstance_Result st v"
  shows "(call (self_task self) (mk_ntd self h) kw = Inr v \<longrightarrow>
            func_wrapper (self_task self) (mk_ntd self h) kw st =
              (Inr (length st), st @ [Result_init (mk_ntd self h) v None]))
       \<and> (await_call (self_task self) (mk_ntd self h) kw = Inr v \<longrightarrow>
            async_func_wrapper (self_task self) (mk_ntd self h) kw st =
              (Inr (length st), st @ [Result_init (mk_ntd self h) v None]))
       \<and> data (Result_init (mk_ntd self h) v None) = v
       \<and> exception (Result_init (mk_ntd self h) v None) = None
       \<and> host (ntd (Result_init (mk_ntd self h) v None)) = h"
  using assms
  by (simp add: func_wrapper_def async_func_wrapper_def result_wrapper_def Result_init_def
        mk_ntd_def)

theorem plain_value_wrapped_witness:
  "\<not> isinstance_Result [] (PyStr ''ok'')
   \<and> func_wrapper (self_task (ex_runner (Function ex_mixed_fn)))
       (mk_ntd (ex_runner (Function ex_mixed_fn)) ex_host1) [] [] =
       (Inr 0, [Result_init (mk_ntd (ex_runner (Function ex_mixed_fn)) ex_host1) (PyStr ''ok'') None])
   \<and> host (ntd (Result_init (mk_ntd (ex_runner (Function ex_mixed_fn)) ex_host1) (PyStr ''ok'') None))
       = ex_host1"
  using plain_value_wrapped [of "[]" "PyStr ''ok''" "ex_runner (Function ex_mixed_fn)" ex_host1 "[]"]
  by (simp add: ex_defs)

text \<open>
  Claim C7.  When the task returns a \<^verbatim>\<open>Result\<close> object with the fields \<open>r0\<close>,
  whatever its \<^verbatim>\<open>ntd\<close>, the object that \<^verbatim>\<open>_result_wrapper\<close> returns has the
  \<^verbatim>\<open>ntd\<close> of the current invocation and all other fields as in \<open>r0\<close>; wrapping
  the returned object once more with the same \<^verbatim>\<open>ntd\<close> changes nothing; and this is
  what \<^verbatim>\<open>_func_wrapper\<close> and \<^verbatim>\<open>_async_func_wrapper\<close> return.
\<close>

theorem result_wrapper_overwrites_ntd:
  assumes "deref st res = Some r0" and "result_wrapper res n st = (a, st')"
  shows "a < length st' \<and> st' ! a = set_ntd n r0
       \<and> ntd (st' ! a) = n \<and> data (st' ! a) = data r0
       \<and> sub_results (st' ! a) = sub_results r0 \<and> changed (st' ! a) = changed r0
       \<and> diff (st' ! a) = diff r0 \<and> exception (st' ! a) = exception r0
       \<and> severity_level (st' ! a) = severity_level r0
       \<and> result_wrapper (PyRef a) n st' = (a, st')
       \<and> (call t n kw = Inr res \<longrightarrow> func_wrapper t n kw st = (Inr a, st'))
       \<and> (await_call t n kw = Inr res \<longrightarrow> async_func_wrapper t n kw st = (Inr a, st'))"
proof -
  have obj: "a < length st' \<and> st' ! a = set_ntd n r0"
    using assms by (cases res) (auto simp: result_wrapper_def split: if_splits)
  have idem: "result_wrapper (PyRef a) n st' = (a, st')"
    using obj by (simp add: result_wrapper_def list_update_same_conv)
  have w1: "call t n kw = Inr res \<longrightarrow> func_wrapper t n kw st = (Inr a, st')"
    using assms(2) by (simp add: func_wrapper_def)
  have w2: "await_call t n kw = Inr res \<longrightarrow> async_func_wrapper t n kw st = (Inr a, st')"
    using assms(2) by (simp add: async_func_wrapper_def)
  show ?thesis using obj idem w1 w2 by simp
qed

theorem result_wrapper_overwrites_ntd_witness:
  "deref ex_store (PyRef 0) = Some (ex_store ! 0)
   \<and> result_wrapper (PyRef 0) (mk_ntd (ex_runner (Function ex_shared_fn)) ex_host1) ex_store =
       (0, [Result_init (mk_ntd (ex_runner (Function ex_shared_fn)) ex_host1) (PyStr ''cached'') None])
   \<and> result_wrapper (PyRef 0) (mk_ntd (ex_runner (Function ex_shared_fn)) ex_host1)
        [Result_init (mk_ntd (ex_runner (Function ex_shared_fn)) ex_host1) (PyStr ''cached'') None] =
       (0, [Result_init (mk_ntd (ex_runner (Function ex_shared_fn)) ex_host1) (PyStr ''cached'') None])"
proof -
  let ?n = "mk_ntd (ex_runner (Function ex_shared_fn)) ex_host1"
  let ?st = "[Result_init ?n (PyStr ''cached'') None]"
  have d: "deref ex_store (PyRef 0) = Some (ex_store ! 0)" by (simp add: ex_store_def)
  have w: "result_wrapper (PyRef 0) ?n ex_store = (0, ?st)"
    by (simp add: ex_store_def result_wrapper_def Result_init_def)
  from result_wrapper_overwrites_ntd [OF d w, of "Function ex_shared_fn" "[]"]
  have "result_wrapper (PyRef 0) ?n ?st = (0, ?st)" by blast
  with d w show ?thesis by simp
qed

section \<open>Selection of hosts and the name of the run\<close>

text \<open>
  Claim C5, as the code has it.  The hosts of a runner are the hosts of the inventory whose
  key is not in \<^verbatim>\<open>failed_hosts\<close>, taken when \<^verbatim>\<open>on_good\<close> holds, together with those
  whose key is in \<^verbatim>\<open>failed_hosts\<close>, taken when \<^verbatim>\<open>on_failed\<close> holds.  With both flags
  false there is no host, and \<^verbatim>\<open>run\<close> returns an \<^verbatim>\<open>AggregatedResults\<close> without
  entries, unless the task is not a coroutine function and \<^verbatim>\<open>num_workers\<close> is below 1:
  then making the pool raises \<^verbatim>\<open>ValueError\<close>.
\<close>

theorem select_hosts_union:
  "set (self_hosts (TaskRunner_init t nr nm sev on_good on_failed)) =
     {h. \<exists>k. (k, h) \<in> set (inventory_hosts nr) \<and> k \<notin> data_failed_hosts nr \<and> on_good} \<union>
     {h. \<exists>k. (k, h) \<in> set (inventory_hosts nr) \<and> k \<in> data_failed_hosts nr \<and> on_failed}
   \<and> self_hosts (TaskRunner_init t nr nm sev False False) = []
   \<and> run (TaskRunner_init t nr nm sev False False) kw st =
       (if \<not> iscoroutinefunction t \<and> config_core_num_workers nr < 1
        then (Inl (Raised (PyException ''ValueError'')), st)
        else (Inr \<lparr> agg_name = name_or nm (class_qualname t), entries = Map.empty \<rparr>, st))"
  by (auto simp: TaskRunner_init_def select_hosts_def run_def run_result_def run_sync_def
        run_async_def image_iff)

theorem select_hosts_union_witness:
  "set (self_hosts (TaskRunner_init (Function ex_mixed_fn) ex_nornir None 20 True False)) =
     {ex_host1, ex_host2}
   \<and> set (self_hosts (TaskRunner_init (Function ex_mixed_fn) ex_nornir None 20 False True)) =
     {ex_host3}
   \<and> self_hosts (TaskRunner_init (Function ex_mixed_fn) ex_nornir None 20 False False) = []
   \<and> run (TaskRunner_init (Function ex_mixed_fn) ex_nornir None 20 False False) [] [] =
       (Inr \<lparr> agg_name = ''function'', entries = Map.empty \<rparr>, [])"
  using select_hosts_union [of "Function ex_mixed_fn" ex_nornir None 20 True False]
    select_hosts_union [of "Function ex_mixed_fn" ex_nornir None 20 False True "[]" "[]"]
    select_hosts_union [of "Function ex_mixed_fn" ex_nornir None 20 False False "[]" "[]"]
  by (auto simp: ex_nornir_def)

text \<open>
  The last part of the claim C5 as stated fails for a task that is not a coroutine function
  when \<^verbatim>\<open>num_workers\<close> is 0: \<^verbatim>\<open>Pool(processes=0)\<close> raises \<^verbatim>\<open>ValueError\<close>,
  although no host is selected, and no \<^verbatim>\<open>AggregatedResults\<close> is returned.
\<close>

theorem no_workers_no_aggregate:
  "self_hosts (TaskRunner_init (Function ex_mixed_fn)
       (ex_nornir\<lparr>config_core_num_workers := 0\<rparr>) None logging_INFO False False) = []
   \<and> run (TaskRunner_init (Function ex_mixed_fn)
       (ex_nornir\<lparr>config_core_num_workers := 0\<rparr>) None logging_INFO False False) [] [] =
       (Inl (Raised (PyException ''ValueError'')), [])"
  by (simp add: ex_defs run_defs)

text \<open>
  Claim C8.  Without an explicit name the runner takes \<^verbatim>\<open>task.__class__.__qualname__\<close>,
  the name of the class of the task: for every plain function and every coroutine function
  that is the string \<^verbatim>\<open>function\<close>, whatever the function.
\<close>

theorem derived_name_is_function:
  "self_name (TaskRunner_init (Function f) nr None sev on_good on_failed) = ''function''
   \<and> self_name (TaskRunner_init (CoroutineFunction g) nr None sev on_good on_failed) = ''function''
   \<and> fst (run (TaskRunner_init (CoroutineFunction g) nr None sev False False) kw st) =
       Inr \<lparr> agg_name = ''function'', entries = Map.empty \<rparr>
   \<and> fst (run (TaskRunner_init (Function f) nr None sev False False) kw st) =
       (if config_core_num_workers nr < 1
        then Inl (Raised (PyException ''ValueError''))
        else Inr \<lparr> agg_name = ''function'', entries = Map.empty \<rparr>)"
  by (simp add: TaskRunner_init_def select_hosts_def run_def run_result_def run_sync_def
        run_async_def)

section \<open>Collecting the results\<close>

lemma collect_frame:
  assumes w: "\<And>h st a st'. w h st = (Inr a, st') \<Longrightarrow>
                length st \<le> length st' \<and> (\<forall>b. b < length st \<longrightarrow> b \<noteq> a \<longrightarrow> st' ! b = st ! b)"
  shows "collect w hs st = (Inr as, st') \<Longrightarrow>
           length st \<le> length st' \<and> (\<forall>b. b < length st \<longrightarrow> b \<notin> set as \<longrightarrow> st' ! b = st ! b)"
proof (induction hs arbitrary: st as st')
  case Nil
  then show ?case by simp
next
  case (Cons h hs)
  from Cons.prems obtain a st1 as1 where
    step: "w h st = (Inr a, st1)" and rest: "collect w hs st1 = (Inr as1, st')" and as: "as = a # as1"
    by (auto split: prod.splits sum.splits)
  from w [OF step] have f1: "length st \<le> length st1"
    "\<And>b. b < length st \<Longrightarrow> b \<noteq> a \<Longrightarrow> st1 ! b = st ! b" by auto
  from Cons.IH [OF rest] have f2: "length st1 \<le> length st'"
    "\<And>b. b < length st1 \<Longrightarrow> b \<notin> set as1 \<Longrightarrow> st' ! b = st1 ! b" by auto
  show ?case using f1 f2 as by auto
qed

lemma collect_length: "collect w hs st = (Inr as, st') \<Longrightarrow> length as = length hs"
  by (induction hs arbitrary: st as st') (auto split: prod.splits sum.splits)

lemma collect_nth:
  assumes w: "\<And>h st a st'. w h st = (Inr a, st') \<Longrightarrow>
                a < length st' \<and> Q h (st' ! a) \<and> length st \<le> length st'
                \<and> (\<forall>b. b < length st \<longrightarrow> b \<noteq> a \<longrightarrow> st' ! b = st ! b)"
  shows "collect w hs st = (Inr as, st') \<Longrightarrow> distinct as \<Longrightarrow> i < length hs \<Longrightarrow>
           as ! i < length st' \<and> Q (hs ! i) (st' ! (as ! i))"
proof (induction hs arbitrary: st as st' i)
  case Nil
  then show ?case by simp
next
  case (Cons h hs)
  from Cons.prems(1) obtain a st1 as1 where
    step: "w h st = (Inr a, st1)" and rest: "collect w hs st1 = (Inr as1, st')" and as: "as = a # as1"
    by (auto split: prod.splits sum.splits)
  have fr: "length st1 \<le> length st' \<and> (\<forall>b. b < length st1 \<longrightarrow> b \<notin> set as1 \<longrightarrow> st' ! b = st1 ! b)"
    using collect_frame [of w hs st1 as1 st'] w rest by blast
  show ?case
  proof (cases i)
    case 0
    have "a < length st1" "Q h (st1 ! a)" using w [OF step] by auto
    moreover have "a \<notin> set as1" using Cons.prems(2) as by simp
    ultimately show ?thesis using fr 0 as by auto
  next
    case (Suc j)
    have "as1 ! j < length st' \<and> Q (hs ! j) (st' ! (as1 ! j))"
      using Cons.IH [OF rest, of j] Cons.prems(2,3) as Suc by simp
    then show ?thesis using Suc as by simp
  qed
qed

lemma collect_returns:
  assumes "\<And>h st. h \<in> set hs \<Longrightarrow> \<exists>a st'. w h st = (Inr a, st')"
  shows "\<exists>as st'. collect w hs st = (Inr as, st')"
  using assms
proof (induction hs arbitrary: st)
  case Nil
  then show ?case by simp
next
  case (Cons h hs)
  obtain a st1 where step: "w h st = (Inr a, st1)" using Cons.prems [of h st] by auto
  obtain as st' where "collect w hs st1 = (Inr as, st')" using Cons.IH [of st1] Cons.prems by auto
  with step show ?case by simp
qed

lemma submit_all_collect:
  "submit_all w hs st = (jobs, st') \<Longrightarrow> get_all jobs = Inr res \<Longrightarrow>
     collect w hs st = (Inr res, st')"
proof (induction hs arbitrary: st jobs st' res)
  case Nil
  then show ?case by auto
next
  case (Cons h hs)
  obtain j st1 where step: "w h st = (j, st1)" by (cases "w h st")
  obtain js st2 where rest: "submit_all w hs st1 = (js, st2)" by (cases "submit_all w hs st1")
  from Cons.prems(1) step rest have jobs: "jobs = j # js" and st: "st' = st2" by simp_all
  from Cons.prems(2) jobs obtain a as where j: "j = Inr a" and as: "get_all js = Inr as"
    and res: "res = a # as"
    by (cases j; cases "get_all js") auto
  from Cons.IH [OF rest as] have "collect w hs st1 = (Inr as, st2)" .
  with step j res st show ?case by simp
qed

lemma collect_submit_all:
  "collect w hs st = (Inr res, st') \<Longrightarrow> submit_all w hs st = (map Inr res, st')"
proof (induction hs arbitrary: st res st')
  case Nil
  then show ?case by auto
next
  case (Cons h hs)
  from Cons.prems obtain a st1 as where
    step: "w h st = (Inr a, st1)" and rest: "collect w hs st1 = (Inr as, st')" and res: "res = a # as"
    by (auto split: prod.splits sum.splits)
  from Cons.IH [OF rest] step res show ?case by simp
qed

lemma get_all_map_Inr: "get_all (map Inr res) = Inr res"
  by (induction res) auto

lemma delivered_map_Inr: "\<not> list_ex undelivered (map Inr res)"
  by (induction res) (auto simp: undelivered_def)

lemma collect_clash:
  assumes "\<And>h st. w h st = (Inl e, st)"
  shows "collect w hs st = (Inr res, st') \<Longrightarrow> hs = [] \<and> res = [] \<and> st' = st"
  using assms by (cases hs) auto

text \<open>
  Whenever \<^verbatim>\<open>run\<close> gets its list of results, the list is that of the guarded
  invocations, host after host.
\<close>

lemma run_result_collect:
  assumes "run_result self kw st = (Inr res, st')"
  shows "collect (\<lambda>h. guarded (invoke self kw h) (mk_ntd self h)) (self_hosts self) st =
           (Inr res, st')"
proof -
  let ?w = "\<lambda>h. if iscoroutinefunction (self_task self)
                 then call_async_func_wrapper (self_task self) (mk_ntd self h) kw
                 else call_func_wrapper (self_task self) (mk_ntd self h) kw"
  have c: "collect ?w (self_hosts self) st = (Inr res, st')"
  proof (cases "iscoroutinefunction (self_task self)")
    case True
    then show ?thesis using assms
      by (auto simp: run_result_def run_async_def split: prod.splits sum.splits)
  next
    case False
    then obtain jobs where "submit_all ?w (self_hosts self) st = (jobs, st')"
      and "get_all jobs = Inr res"
      using assms by (auto simp: run_result_def run_sync_def split: if_splits prod.splits)
    then show ?thesis by (rule submit_all_collect)
  qed
  show ?thesis
  proof (cases "clashes kw")
    case True
    then have "\<And>h st. ?w h st = (Inl (PyException ''TypeError''), st)"
      by (simp add: call_func_wrapper_def call_async_func_wrapper_def)
    from collect_clash [of ?w, OF this c] show ?thesis by simp
  next
    case False
    then have "?w = (\<lambda>h. guarded (invoke self kw h) (mk_ntd self h))"
      by (intro ext)
         (simp add: call_func_wrapper_def call_async_func_wrapper_def invoke_def
            func_wrapper_guarded async_func_wrapper_guarded)
    with c show ?thesis by simp
  qed
qed

lemma fill_name [simp]: "agg_name (fill st rs agg) = agg_name agg"
  by (induction rs arbitrary: agg) auto

lemma fill_entries:
  "entries (fill st rs agg) =
     entries agg ++ map_of (rev (map (\<lambda>r. (name (host (ntd (st ! r))), r)) rs))"
  by (induction rs arbitrary: agg) (auto simp: map_add_def split: option.splits)

lemma fill_dom:
  "dom (entries (fill st rs \<lparr> agg_name = nm, entries = Map.empty \<rparr>)) =
     set (map (\<lambda>r. name (host (ntd (st ! r)))) rs)"
  by (simp add: fill_entries dom_map_of_conv_image_fst image_image)

lemma fill_lookup:
  assumes "distinct (map (\<lambda>r. name (host (ntd (st ! r)))) rs)" and "i < length rs"
  shows "entries (fill st rs \<lparr> agg_name = nm, entries = Map.empty \<rparr>)
           (name (host (ntd (st ! (rs ! i))))) = Some (rs ! i)"
proof -
  let ?xs = "map (\<lambda>r. (name (host (ntd (st ! r))), r)) rs"
  have d: "distinct (map fst (rev ?xs))"
    using assms(1) by (simp add: rev_map [symmetric] comp_def)
  have m: "(name (host (ntd (st ! (rs ! i)))), rs ! i) \<in> set (rev ?xs)"
    using assms(2) by auto
  show ?thesis using map_of_is_SomeI [OF d m] by (simp add: fill_entries)
qed

lemma run_result_ntd:
  assumes "run_result self kw st = (Inr res, st')" and "distinct res"
    and "i < length (self_hosts self)"
  shows "res ! i < length st' \<and> ntd (st' ! (res ! i)) = mk_ntd self (self_hosts self ! i)"
proof -
  have c: "collect (\<lambda>h. guarded (invoke self kw h) (mk_ntd self h)) (self_hosts self) st =
             (Inr res, st')"
    using assms(1) by (rule run_result_collect)
  show ?thesis
    by (rule collect_nth [where Q = "\<lambda>h r. ntd r = mk_ntd self h", OF _ c assms(2,3)])
       (use guarded_frame in blast)
qed

lemma run_result_length:
  "run_result self kw st = (Inr res, st') \<Longrightarrow> length res = length (self_hosts self)"
  by (drule run_result_collect) (rule collect_length)

lemma run_result_keys:
  assumes "run_result self kw st = (Inr res, st')" and "distinct res"
  shows "map (\<lambda>r. name (host (ntd (st' ! r)))) res = map name (self_hosts self)"
proof (rule nth_equalityI)
  show "length (map (\<lambda>r. name (host (ntd (st' ! r)))) res) = length (map name (self_hosts self))"
    using run_result_length [OF assms(1)] by simp
next
  fix i
  assume "i < length (map (\<lambda>r. name (host (ntd (st' ! r)))) res)"
  then have i: "i < length (self_hosts self)" "i < length res"
    using run_result_length [OF assms(1)] by simp_all
  show "map (\<lambda>r. name (host (ntd (st' ! r)))) res ! i = map name (self_hosts self) ! i"
    using run_result_ntd [OF assms i(1)] i by simp
qed

lemma guarded_payload:
  assumes "guarded out n st = (Inr a, st')"
  shows "\<forall>b<length st. data (st' ! b) = data (st ! b) \<and> exception (st' ! b) = exception (st ! b)"
proof (cases out)
  case (Inl e)
  then show ?thesis using assms by (auto simp: guarded_def nth_append split: if_splits)
next
  case (Inr v)
  then have rw: "result_wrapper v n st = (a, st')"
    using assms by (auto simp: guarded_def split: prod.splits)
  show ?thesis
    using rw by (cases v) (auto simp: result_wrapper_def nth_append nth_list_update split: if_splits)
qed

lemma collect_payload:
  assumes w: "\<And>h st a st'. w h st = (Inr a, st') \<Longrightarrow>
                length st \<le> length st' \<and>
                (\<forall>b<length st. data (st' ! b) = data (st ! b) \<and> exception (st' ! b) = exception (st ! b))"
  shows "collect w hs st = (Inr as, st') \<Longrightarrow>
           length st \<le> length st' \<and>
           (\<forall>b<length st. data (st' ! b) = data (st ! b) \<and> exception (st' ! b) = exception (st ! b))"
proof (induction hs arbitrary: st as st')
  case Nil
  then show ?case by simp
next
  case (Cons h hs)
  from Cons.prems obtain a st1 as1 where
    step: "w h st = (Inr a, st1)" and rest: "collect w hs st1 = (Inr as1, st')"
    by (auto split: prod.splits sum.splits)
  from w [OF step] Cons.IH [OF rest] show ?case by auto
qed

lemma collect_nth_payload:
  assumes w: "\<And>h st a st'. w h st = (Inr a, st') \<Longrightarrow>
                a < length st' \<and> P h (data (st' ! a)) (exception (st' ! a)) \<and> length st \<le> length st' \<and>
                (\<forall>b<length st. data (st' ! b) = data (st ! b) \<and> exception (st' ! b) = exception (st ! b))"
  shows "collect w hs st = (Inr as, st') \<Longrightarrow> i < length hs \<Longrightarrow>
           as ! i < length st' \<and> P (hs ! i) (data (st' ! (as ! i))) (exception (st' ! (as ! i)))"
proof (induction hs arbitrary: st as st' i)
  case Nil
  then show ?case by simp
next
  case (Cons h hs)
  from Cons.prems(1) obtain a st1 as1 where
    step: "w h st = (Inr a, st1)" and rest: "collect w hs st1 = (Inr as1, st')" and as: "as = a # as1"
    by (auto split: prod.splits sum.splits)
  have fr: "length st1 \<le> length st' \<and>
      (\<forall>b<length st1. data (st' ! b) = data (st1 ! b) \<and> exception (st' ! b) = exception (st1 ! b))"
    using collect_payload [of w hs st1 as1 st'] w rest by blast
  show ?case
  proof (cases i)
    case 0
    have "a < length st1" "P h (data (st1 ! a)) (exception (st1 ! a))" using w [OF step] by auto
    then show ?thesis using fr 0 as by auto
  next
    case (Suc j)
    have "as1 ! j < length st' \<and> P (hs ! j) (data (st' ! (as1 ! j))) (exception (st' ! (as1 ! j)))"
      using Cons.IH [OF rest, of j] Cons.prems(2) Suc by simp
    then show ?thesis using Suc as by simp
  qed
qed

lemma run_result_payload:
  assumes "run_result self kw st = (Inr res, st')" and "i < length (self_hosts self)"
  shows "res ! i < length st'
       \<and> (\<forall>e. invoke self kw (self_hosts self ! i) = Inl e \<longrightarrow>
            exception (st' ! (res ! i)) = Some e \<and> data (st' ! (res ! i)) = PyNone)
       \<and> (\<forall>v. invoke self kw (self_hosts self ! i) = Inr v \<longrightarrow> (\<forall>s. \<not> isinstance_Result s v) \<longrightarrow>
              data (st' ! (res ! i)) = v \<and> exception (st' ! (res ! i)) = None)"
proof -
  have c: "collect (\<lambda>h. guarded (invoke self kw h) (mk_ntd self h)) (self_hosts self) st =
             (Inr res, st')"
    using assms(1) by (rule run_result_collect)
  have step: "a < length s' \<and>
        ((\<forall>e. invoke self kw h = Inl e \<longrightarrow> exception (s' ! a) = Some e \<and> data (s' ! a) = PyNone)
         \<and> (\<forall>v. invoke self kw h = Inr v \<longrightarrow> (\<forall>s. \<not> isinstance_Result s v) \<longrightarrow>
                data (s' ! a) = v \<and> exception (s' ! a) = None))
        \<and> length s \<le> length s'
        \<and> (\<forall>b<length s. data (s' ! b) = data (s ! b) \<and> exception (s' ! b) = exception (s ! b))"
    if g: "guarded (invoke self kw h) (mk_ntd self h) s = (Inr a, s')" for h s a s'
  proof -
    have 1: "a < length s'" "length s \<le> length s'" using guarded_frame [OF g] by simp_all
    note 2 = guarded_content [OF g]
    note 3 = guarded_payload [OF g]
    show ?thesis using 1 2 3 by simp
  qed
  show ?thesis
    by (rule collect_nth_payload [where P = "\<lambda>h d x.
            (\<forall>e. invoke self kw h = Inl e \<longrightarrow> x = Some e \<and> d = PyNone)
          \<and> (\<forall>v. invoke self kw h = Inr v \<longrightarrow> (\<forall>s. \<not> isinstance_Result s v) \<longrightarrow>
                 d = v \<and> x = None)", OF step c assms(2)])
qed

lemma run_result_returns:
  assumes esc: "\<forall>h\<in>set (self_hosts self). \<forall>e. invoke self kw h = Inl e \<longrightarrow> isinstance_Exception e"
    and pool: "iscoroutinefunction (self_task self) \<or> 1 \<le> self_num_workers self"
    and bind: "\<not> clashes kw"
  shows "\<exists>res st'. run_result self kw st = (Inr res, st')"
proof -
  let ?g = "\<lambda>h. guarded (invoke self kw h) (mk_ntd self h)"
  have "\<exists>res st'. collect ?g (self_hosts self) st = (Inr res, st')"
    by (rule collect_returns) (use esc guarded_returns in blast)
  then obtain res st' where c: "collect ?g (self_hosts self) st = (Inr res, st')" by blast
  show ?thesis
  proof (cases "iscoroutinefunction (self_task self)")
    case True
    then have "(\<lambda>h. call_async_func_wrapper (self_task self) (mk_ntd self h) kw) = ?g"
      using bind
      by (intro ext) (simp add: call_async_func_wrapper_def invoke_def async_func_wrapper_guarded)
    then have "run_result self kw st = (Inr res, st')"
      using True c by (simp add: run_result_def run_async_def)
    then show ?thesis by blast
  next
    case False
    then have w: "(\<lambda>h. call_func_wrapper (self_task self) (mk_ntd self h) kw) = ?g"
      using bind
      by (intro ext) (simp add: call_func_wrapper_def invoke_def func_wrapper_guarded)
    have n: "\<not> self_num_workers self < 1" using pool False by simp
    have "submit_all ?g (self_hosts self) st = (map Inr res, st')"
      using c by (rule collect_submit_all)
    then have "run_result self kw st = (Inr res, st')"
      using False n w by (simp add: run_result_def run_sync_def get_all_map_Inr delivered_map_Inr)
    then show ?thesis by blast
  qed
qed

lemma run_Inr:
  "run_result self kw st = (Inr res, st') \<Longrightarrow>
     run self kw st =
       (Inr (fill st' res \<lparr> agg_name = self_name self, entries = Map.empty \<rparr>), st')"
  by (simp add: run_def)

lemma distinct_select_hosts:
  assumes "distinct (map (\<lambda>(k, h). name h) (inventory_hosts nr))"
  shows "distinct (map name (select_hosts nr on_good on_failed))"
proof -
  let ?f = "\<lambda>(k, h). name h" and ?inv = "inventory_hosts nr"
  let ?G = "filter (\<lambda>(nm, h). nm \<notin> data_failed_hosts nr) ?inv"
  let ?B = "filter (\<lambda>(nm, h). nm \<in> data_failed_hosts nr) ?inv"
  have inj: "inj_on ?f (set ?inv)"
    using assms by (simp add: distinct_map)
  have m: "map name (map snd xs) = map ?f xs" for xs :: "(string \<times> Host) list"
    by (induction xs) auto
  have part: "distinct (map ?f (filter P ?inv))" for P
    using assms by (rule distinct_map_filter)
  have disj: "set (map ?f ?G) \<inter> set (map ?f ?B) = {}"
  proof (rule ccontr)
    assume "set (map ?f ?G) \<inter> set (map ?f ?B) \<noteq> {}"
    then obtain x y where x: "x \<in> set ?inv" "fst x \<notin> data_failed_hosts nr"
      and y: "y \<in> set ?inv" "fst y \<in> data_failed_hosts nr"
      and eq: "?f x = ?f y" by (auto simp: case_prod_beta)
    from inj eq x(1) y(1) have "x = y" by (rule inj_onD)
    with x y show False by simp
  qed
  have eq: "map name (select_hosts nr on_good on_failed) =
              (if on_good then map ?f ?G else []) @ (if on_failed then map ?f ?B else [])"
    unfolding select_hosts_def map_append by (simp only: m if_distrib [of "map name"] list.map)
  have "distinct ((if on_good then map ?f ?G else []) @ (if on_failed then map ?f ?B else []))"
    using part [of "\<lambda>(nm, h). nm \<notin> data_failed_hosts nr"]
      part [of "\<lambda>(nm, h). nm \<in> data_failed_hosts nr"] disj
    by (cases on_good; cases on_failed) (simp_all only: if_True if_False distinct_append distinct.simps list.set Int_empty_left Int_empty_right append_Nil append_Nil2 simp_thms)
  then show ?thesis by (simp only: eq)
qed

lemma select_hosts_subset:
  "h \<in> set (select_hosts nr on_good on_failed) \<Longrightarrow> \<exists>k. (k, h) \<in> set (inventory_hosts nr)"
  by (auto simp: select_hosts_def split: if_splits)

lemma ex_mixed_run_result:
  "run_result (ex_runner_all (Function ex_mixed_fn)) [] [] =
     (Inr [0, 1, 2],
      [Result_init (mk_ntd (ex_runner_all (Function ex_mixed_fn)) ex_host1) (PyStr ''ok'') None,
       Result_init (mk_ntd (ex_runner_all (Function ex_mixed_fn)) ex_host2) PyNone
         (Some (PyException ''ValueError'')),
       Result_init (mk_ntd (ex_runner_all (Function ex_mixed_fn)) ex_host3) (PyStr ''ok'') None])"
  by (simp add: ex_defs run_defs)

lemma ex_mixed_hosts:
  "self_hosts (ex_runner_all (Function ex_mixed_fn)) = [ex_host1, ex_host2, ex_host3]"
  by (simp add: ex_defs)

text \<open>
  Claim C1, as the code has it.  An exception that is an instance of \<^verbatim>\<open>Exception\<close>
  does not leave \<^verbatim>\<open>_func_wrapper\<close> or \<^verbatim>\<open>_async_func_wrapper\<close>: the wrapper
  returns a new \<^verbatim>\<open>Result\<close> with that exception in \<^verbatim>\<open>exception\<close> and
  \<^verbatim>\<open>None\<close> in \<^verbatim>\<open>data\<close>.  Any other exception leaves the wrapper as it is.  Let the
  call of \<^verbatim>\<open>run\<close> be such that the pool can be made (a coroutine function as task, or
  \<^verbatim>\<open>num_workers\<close> at least 1) and no keyword argument is named \<^verbatim>\<open>func\<close> or
  \<^verbatim>\<open>ntd\<close>.  When no invocation for a selected host raises anything but an instance of
  \<^verbatim>\<open>Exception\<close>, \<^verbatim>\<open>run\<close> returns an \<^verbatim>\<open>AggregatedResults\<close>, however many
  invocations raised, and the list it is filled from holds one \<^verbatim>\<open>Result\<close> per selected
  host: with the exception for a host whose invocation raised, with the value and no
  exception for a host whose invocation returned a value that is not a \<^verbatim>\<open>Result\<close>.
  When moreover the host names and the \<^verbatim>\<open>Result\<close> objects of the list are pairwise
  distinct, each of them is the entry of its host.
\<close>

theorem task_exceptions_become_results:
  assumes "\<forall>h\<in>set (self_hosts self). \<forall>e. invoke self kw h = Inl e \<longrightarrow> isinstance_Exception e"
    and "iscoroutinefunction (self_task self) \<or> 1 \<le> self_num_workers self"
    and "\<not> clashes kw"
  shows "(\<forall>n s e. call (self_task self) n kw = Inl e \<and> isinstance_Exception e \<longrightarrow>
            func_wrapper (self_task self) n kw s =
              (Inr (length s), s @ [Result_init n PyNone (Some e)]))
       \<and> (\<forall>n s e. await_call (self_task self) n kw = Inl e \<and> isinstance_Exception e \<longrightarrow>
            async_func_wrapper (self_task self) n kw s =
              (Inr (length s), s @ [Result_init n PyNone (Some e)]))
       \<and> (\<forall>n s e. call (self_task self) n kw = Inl e \<and> \<not> isinstance_Exception e \<longrightarrow>
            func_wrapper (self_task self) n kw s = (Inl e, s))
       \<and> (\<forall>n s e. await_call (self_task self) n kw = Inl e \<and> \<not> isinstance_Exception e \<longrightarrow>
            async_func_wrapper (self_task self) n kw s = (Inl e, s))
       \<and> (\<exists>res st' agg.
            run_result self kw st = (Inr res, st') \<and> run self kw st = (Inr agg, st')
          \<and> length res = length (self_hosts self)
          \<and> (\<forall>i<length (self_hosts self).
                 res ! i < length st'
               \<and> (\<forall>e. invoke self kw (self_hosts self ! i) = Inl e \<longrightarrow>
                     exception (st' ! (res ! i)) = Some e \<and> data (st' ! (res ! i)) = PyNone)
               \<and> (\<forall>v. invoke self kw (self_hosts self ! i) = Inr v \<longrightarrow>
                     (\<forall>s. \<not> isinstance_Result s v) \<longrightarrow>
                     data (st' ! (res ! i)) = v \<and> exception (st' ! (res ! i)) = None))
          \<and> (distinct res \<and> distinct (map name (self_hosts self)) \<longrightarrow>
              (\<forall>i<length (self_hosts self).
                 entries agg (name (self_hosts self ! i)) = Some (res ! i)
               \<and> ntd (st' ! (res ! i)) = mk_ntd self (self_hosts self ! i))))"
proof -
  have w1: "func_wrapper (self_task self) n kw s =
              (Inr (length s), s @ [Result_init n PyNone (Some e)])"
    if "call (self_task self) n kw = Inl e" "isinstance_Exception e" for n s e
    using that by (simp add: func_wrapper_def)
  have w2: "async_func_wrapper (self_task self) n kw s =
              (Inr (length s), s @ [Result_init n PyNone (Some e)])"
    if "await_call (self_task self) n kw = Inl e" "isinstance_Exception e" for n s e
    using that by (simp add: async_func_wrapper_def)
  obtain res st' where res: "run_result self kw st = (Inr res, st')"
    using run_result_returns [OF assms] by blast
  let ?agg = "fill st' res \<lparr> agg_name = self_name self, entries = Map.empty \<rparr>"
  have r: "run self kw st = (Inr ?agg, st')" by (rule run_Inr [OF res])
  have len: "length res = length (self_hosts self)" by (rule run_result_length [OF res])
  note pay = run_result_payload [OF res]
  have each: "entries ?agg (name (self_hosts self ! i)) = Some (res ! i)
               \<and> ntd (st' ! (res ! i)) = mk_ntd self (self_hosts self ! i)"
    if d: "distinct res" and dn: "distinct (map name (self_hosts self))"
      and i: "i < length (self_hosts self)" for i
  proof -
    have keys: "map (\<lambda>r. name (host (ntd (st' ! r)))) res = map name (self_hosts self)"
      by (rule run_result_keys [OF res d])
    have n: "ntd (st' ! (res ! i)) = mk_ntd self (self_hosts self ! i)"
      using run_result_ntd [OF res d i] by simp
    have "entries ?agg (name (host (ntd (st' ! (res ! i))))) = Some (res ! i)"
      using fill_lookup [of st' res i] keys dn i len by simp
    then show ?thesis using n by simp
  qed
  have disp: "\<exists>res st' agg.
            run_result self kw st = (Inr res, st') \<and> run self kw st = (Inr agg, st')
          \<and> length res = length (self_hosts self)
          \<and> (\<forall>i<length (self_hosts self).
                 res ! i < length st'
               \<and> (\<forall>e. invoke self kw (self_hosts self ! i) = Inl e \<longrightarrow>
                     exception (st' ! (res ! i)) = Some e \<and> data (st' ! (res ! i)) = PyNone)
               \<and> (\<forall>v. invoke self kw (self_hosts self ! i) = Inr v \<longrightarrow>
                     (\<forall>s. \<not> isinstance_Result s v) \<longrightarrow>
                     data (st' ! (res ! i)) = v \<and> exception (st' ! (res ! i)) = None))
          \<and> (distinct res \<and> distinct (map name (self_hosts self)) \<longrightarrow>
              (\<forall>i<length (self_hosts self).
                 entries agg (name (self_hosts self ! i)) = Some (res ! i)
               \<and> ntd (st' ! (res ! i)) = mk_ntd self (self_hosts self ! i)))"
  proof -
    have payall: "\<forall>i<length (self_hosts self).
                 res ! i < length st'
               \<and> (\<forall>e. invoke self kw (self_hosts self ! i) = Inl e \<longrightarrow>
                     exception (st' ! (res ! i)) = Some e \<and> data (st' ! (res ! i)) = PyNone)
               \<and> (\<forall>v. invoke self kw (self_hosts self ! i) = Inr v \<longrightarrow>
                     (\<forall>s. \<not> isinstance_Result s v) \<longrightarrow>
                     data (st' ! (res ! i)) = v \<and> exception (st' ! (res ! i)) = None)"
      by (intro allI impI) (rule pay)
    have eachall: "distinct res \<and> distinct (map name (self_hosts self)) \<longrightarrow>
              (\<forall>i<length (self_hosts self).
                 entries ?agg (name (self_hosts self ! i)) = Some (res ! i)
               \<and> ntd (st' ! (res ! i)) = mk_ntd self (self_hosts self ! i))"
      by (intro allI impI, elim conjE) (rule each)
    show ?thesis
      apply (rule exI [of _ res], rule exI [of _ st'], rule exI [of _ ?agg])
      apply (intro conjI)
          apply (rule res)
         apply (rule r)
        apply (rule len)
       apply (rule payall)
      apply (rule eachall)
      done
  qed
  have wr1: "\<forall>n s e. call (self_task self) n kw = Inl e \<and> isinstance_Exception e \<longrightarrow>
            func_wrapper (self_task self) n kw s =
              (Inr (length s), s @ [Result_init n PyNone (Some e)])"
    using w1 by blast
  have wr2: "\<forall>n s e. await_call (self_task self) n kw = Inl e \<and> isinstance_Exception e \<longrightarrow>
            async_func_wrapper (self_task self) n kw s =
              (Inr (length s), s @ [Result_init n PyNone (Some e)])"
    using w2 by blast
  have wr3: "\<forall>n s e. call (self_task self) n kw = Inl e \<and> \<not> isinstance_Exception e \<longrightarrow>
            func_wrapper (self_task self) n kw s = (Inl e, s)"
    by (simp add: func_wrapper_def)
  have wr4: "\<forall>n s e. await_call (self_task self) n kw = Inl e \<and> \<not> isinstance_Exception e \<longrightarrow>
            async_func_wrapper (self_task self) n kw s = (Inl e, s)"
    by (simp add: async_func_wrapper_def)
  from wr1 wr2 wr3 wr4 disp show ?thesis by (intro conjI)
qed

theorem task_exceptions_become_results_witness:
  "invoke (ex_runner_all (Function ex_mixed_fn)) [] ex_host1 = Inr (PyStr ''ok'')
   \<and> invoke (ex_runner_all (Function ex_mixed_fn)) [] ex_host2 = Inl (PyException ''ValueError'')
   \<and> invoke (ex_runner_all (Function ex_mixed_fn)) [] ex_host3 = Inr (PyStr ''ok'')
   \<and> isinstance_Exception (PyException ''ValueError'')
   \<and> 1 \<le> self_num_workers (ex_runner_all (Function ex_mixed_fn))
   \<and> (\<exists>agg st'. run (ex_runner_all (Function ex_mixed_fn)) [] [] = (Inr agg, st')
        \<and> entries agg ''h1'' = Some 0 \<and> data (st' ! 0) = PyStr ''ok'' \<and> exception (st' ! 0) = None
        \<and> entries agg ''h2'' = Some 1 \<and> data (st' ! 1) = PyNone
        \<and> exception (st' ! 1) = Some (PyException ''ValueError'')
        \<and> entries agg ''h3'' = Some 2 \<and> data (st' ! 2) = PyStr ''ok'' \<and> exception (st' ! 2) = None)"
proof -
  let ?self = "ex_runner_all (Function ex_mixed_fn)"
  have hyp: "\<forall>h\<in>set (self_hosts ?self). \<forall>e. invoke ?self [] h = Inl e \<longrightarrow> isinstance_Exception e"
    by (simp add: ex_mixed_hosts invoke_def) (simp add: ex_defs)
  have pool: "iscoroutinefunction (self_task ?self) \<or> 1 \<le> self_num_workers ?self"
    by (simp add: ex_defs)
  have bind: "\<not> clashes []" by (simp add: clashes_def)
  from task_exceptions_become_results [OF hyp pool bind, of "[]"]
  obtain res st' agg where rr: "run_result ?self [] [] = (Inr res, st')"
    and r: "run ?self [] [] = (Inr agg, st')"
    and pay: "\<forall>i<length (self_hosts ?self).
                 res ! i < length st'
               \<and> (\<forall>e. invoke ?self [] (self_hosts ?self ! i) = Inl e \<longrightarrow>
                     exception (st' ! (res ! i)) = Some e \<and> data (st' ! (res ! i)) = PyNone)
               \<and> (\<forall>v. invoke ?self [] (self_hosts ?self ! i) = Inr v \<longrightarrow>
                     (\<forall>s. \<not> isinstance_Result s v) \<longrightarrow>
                     data (st' ! (res ! i)) = v \<and> exception (st' ! (res ! i)) = None)"
    and each: "distinct res \<and> distinct (map name (self_hosts ?self)) \<longrightarrow>
              (\<forall>i<length (self_hosts ?self).
                 entries agg (name (self_hosts ?self ! i)) = Some (res ! i)
               \<and> ntd (st' ! (res ! i)) = mk_ntd ?self (self_hosts ?self ! i))"
    by blast
  have res: "res = [0, 1, 2]" using rr ex_mixed_run_result by simp
  have dn: "distinct (map name (self_hosts ?self))"
    by (simp add: ex_mixed_hosts) (simp add: ex_defs)
  have i0: "invoke ?self [] ex_host1 = Inr (PyStr ''ok'')"
    and i1: "invoke ?self [] ex_host2 = Inl (PyException ''ValueError'')"
    and i2: "invoke ?self [] ex_host3 = Inr (PyStr ''ok'')"
    by (simp_all add: invoke_def ex_defs)
  have names: "name ex_host1 = ''h1''" "name ex_host2 = ''h2''" "name ex_host3 = ''h3''"
    by (simp_all add: ex_defs)
  have keyed: "\<forall>i<3. entries agg (name ([ex_host1, ex_host2, ex_host3] ! i)) = Some ([0, 1, 2] ! i)"
    using each dn res by (simp add: ex_mixed_hosts)
  have held: "\<forall>i<3.
                 (\<forall>e. invoke ?self [] ([ex_host1, ex_host2, ex_host3] ! i) = Inl e \<longrightarrow>
                     exception (st' ! ([0, 1, 2] ! i)) = Some e \<and> data (st' ! ([0, 1, 2] ! i)) = PyNone)
               \<and> (\<forall>v. invoke ?self [] ([ex_host1, ex_host2, ex_host3] ! i) = Inr v \<longrightarrow>
                     (\<forall>s. \<not> isinstance_Result s v) \<longrightarrow>
                     data (st' ! ([0, 1, 2] ! i)) = v \<and> exception (st' ! ([0, 1, 2] ! i)) = None)"
    using pay res by (simp add: ex_mixed_hosts)
  have h1: "entries agg ''h1'' = Some 0 \<and> data (st' ! 0) = PyStr ''ok'' \<and> exception (st' ! 0) = None"
    using keyed [rule_format, of 0] held [rule_format, of 0] i0 names by simp
  have h2: "entries agg ''h2'' = Some 1 \<and> data (st' ! 1) = PyNone
            \<and> exception (st' ! 1) = Some (PyException ''ValueError'')"
    using keyed [rule_format, of 1] held [rule_format, of 1] i1 names by simp
  have h3: "entries agg ''h3'' = Some 2 \<and> data (st' ! 2) = PyStr ''ok'' \<and> exception (st' ! 2) = None"
    using keyed [rule_format, of 2] held [rule_format, of 2] i2 names by simp
  have nw: "1 \<le> self_num_workers ?self" by (simp add: ex_defs)
  show ?thesis using i0 i1 i2 nw r h1 h2 h3 by auto
qed

text \<open>
  The claim C1 as stated fails for an exception that is not an instance of
  \<^verbatim>\<open>Exception\<close>: \<^verbatim>\<open>SystemExit\<close> raised for \<^verbatim>\<open>h1\<close> leaves both wrappers.  With a
  coroutine function as task it leaves \<^verbatim>\<open>run\<close> too; with a plain function the job of
  \<^verbatim>\<open>h1\<close> never delivers and \<^verbatim>\<open>run\<close> does not come back.  Either way no
  \<^verbatim>\<open>AggregatedResults\<close> is returned, although the invocation for \<^verbatim>\<open>h2\<close> returns
  normally.
\<close>

theorem base_exception_leaves_wrapper:
  "func_wrapper (Function ex_exit_fn) (mk_ntd (ex_runner (Function ex_exit_fn)) ex_host1) [] [] =
     (Inl (PyBaseException ''SystemExit''), [])
   \<and> async_func_wrapper (CoroutineFunction ex_exit_fn)
       (mk_ntd (ex_runner (CoroutineFunction ex_exit_fn)) ex_host1) [] [] =
     (Inl (PyBaseException ''SystemExit''), [])
   \<and> self_hosts (ex_runner (CoroutineFunction ex_exit_fn)) = [ex_host1, ex_host2]
   \<and> run (ex_runner (CoroutineFunction ex_exit_fn)) [] [] =
       (Inl (Raised (PyBaseException ''SystemExit'')), [])
   \<and> fst (run (ex_runner (Function ex_exit_fn)) [] []) = Inl Hang"
  by (simp add: ex_defs run_defs)

text \<open>
  Claim C4, as the code has it.  Let the host names of the inventory be pairwise distinct and
  let \<^verbatim>\<open>run\<close> get its list of results, in which no \<^verbatim>\<open>Result\<close> object occurs
  twice.  Then the \<^verbatim>\<open>AggregatedResults\<close> has exactly one entry for each selected host,
  under the name of the host and with that host in its \<^verbatim>\<open>ntd\<close>, whatever the number of
  invocations that raised, and no entry for a host of the inventory that was not selected.
\<close>

theorem run_one_entry_per_host:
  assumes names: "distinct (map (\<lambda>(k, h). name h) (inventory_hosts nr))"
    and self: "self = TaskRunner_init t nr nm sev on_good on_failed"
    and res: "run_result self kw st = (Inr res, st')"
    and objs: "distinct res"
  shows "\<exists>agg. run self kw st = (Inr agg, st')
           \<and> dom (entries agg) = name ` set (self_hosts self)
           \<and> card (dom (entries agg)) = length (self_hosts self)
           \<and> (\<forall>i<length (self_hosts self).
                 entries agg (name (self_hosts self ! i)) = Some (res ! i)
                 \<and> host (ntd (st' ! (res ! i))) = self_hosts self ! i)
           \<and> (\<forall>(k, h)\<in>set (inventory_hosts nr).
                 h \<notin> set (self_hosts self) \<longrightarrow> name h \<notin> dom (entries agg))"
proof -
  let ?agg = "fill st' res \<lparr> agg_name = self_name self, entries = Map.empty \<rparr>"
  let ?hs = "self_hosts self"
  have hs: "?hs = select_hosts nr on_good on_failed"
    using self by (simp add: TaskRunner_init_def)
  have dn: "distinct (map name ?hs)"
    using distinct_select_hosts [OF names] hs by simp
  have keys: "map (\<lambda>r. name (host (ntd (st' ! r)))) res = map name ?hs"
    by (rule run_result_keys [OF res objs])
  have len: "length res = length ?hs" by (rule run_result_length [OF res])
  have r: "run self kw st = (Inr ?agg, st')" by (rule run_Inr [OF res])
  have d: "dom (entries ?agg) = name ` set ?hs"
    by (simp add: fill_dom keys)
  have c: "card (dom (entries ?agg)) = length ?hs"
    using distinct_card [OF dn] d by simp
  have e: "entries ?agg (name (?hs ! i)) = Some (res ! i) \<and> host (ntd (st' ! (res ! i))) = ?hs ! i"
    if i: "i < length ?hs" for i
  proof -
    have "entries ?agg (name (host (ntd (st' ! (res ! i))))) = Some (res ! i)"
      using fill_lookup [of st' res i] keys dn i len by simp
    moreover have "ntd (st' ! (res ! i)) = mk_ntd self (?hs ! i)"
      using run_result_ntd [OF res objs i] by simp
    ultimately show ?thesis by simp
  qed
  have x: "name h \<notin> dom (entries ?agg)"
    if kh: "(k, h) \<in> set (inventory_hosts nr)" and out: "h \<notin> set ?hs" for k h
  proof
    assume "name h \<in> dom (entries ?agg)"
    then obtain h' where h': "h' \<in> set ?hs" "name h' = name h" using d by auto
    then obtain k' where k': "(k', h') \<in> set (inventory_hosts nr)"
      using select_hosts_subset hs by metis
    have "inj_on (\<lambda>(k, h). name h) (set (inventory_hosts nr))"
      using names by (simp add: distinct_map)
    from inj_onD [OF this _ k' kh] h'(2) have "h' = h" by simp
    with h'(1) out show False by simp
  qed
  show ?thesis using r d c e x by blast
qed

theorem run_one_entry_per_host_witness:
  "distinct (map (\<lambda>(k, h). name h) (inventory_hosts ex_nornir))
   \<and> (\<exists>agg st'. run (ex_runner_all (Function ex_mixed_fn)) [] [] = (Inr agg, st')
        \<and> dom (entries agg) = {''h1'', ''h2'', ''h3''}
        \<and> card (dom (entries agg)) = 3)
   \<and> (\<exists>agg st'. run (ex_runner (Function ex_mixed_fn)) [] [] = (Inr agg, st')
        \<and> dom (entries agg) = {''h1'', ''h2''}
        \<and> ''h3'' \<notin> dom (entries agg))"
proof -
  let ?self = "ex_runner_all (Function ex_mixed_fn)"
  let ?self2 = "ex_runner (Function ex_mixed_fn)"
  have names: "distinct (map (\<lambda>(k, h). name h) (inventory_hosts ex_nornir))"
    by (simp add: ex_defs)
  have d: "distinct [0::nat, 1, 2]" by simp
  from run_one_entry_per_host [OF names _ ex_mixed_run_result d,
         of "Function ex_mixed_fn" None logging_INFO True True]
  obtain agg st' where a: "run ?self [] [] = (Inr agg, st')"
    "dom (entries agg) = name ` set (self_hosts ?self)" "card (dom (entries agg)) = length (self_hosts ?self)"
    unfolding ex_runner_all_def by blast
  have one: "\<exists>agg st'. run ?self [] [] = (Inr agg, st')
        \<and> dom (entries agg) = {''h1'', ''h2'', ''h3''} \<and> card (dom (entries agg)) = 3"
    using a by (auto simp: ex_mixed_hosts ex_host1_def ex_host2_def ex_host3_def)
  have rr2: "run_result ?self2 [] [] =
     (Inr [0, 1],
      [Result_init (mk_ntd ?self2 ex_host1) (PyStr ''ok'') None,
       Result_init (mk_ntd ?self2 ex_host2) PyNone (Some (PyException ''ValueError''))])"
    by (simp add: ex_defs run_defs)
  have d2: "distinct [0::nat, 1]" by simp
  have hs2: "self_hosts ?self2 = [ex_host1, ex_host2]" by (simp add: ex_defs)
  have in3: "(''h3'', ex_host3) \<in> set (inventory_hosts ex_nornir)" by (simp add: ex_nornir_def)
  from run_one_entry_per_host [OF names _ rr2 d2,
         of "Function ex_mixed_fn" None logging_INFO True False]
  obtain agg2 st2 where b: "run ?self2 [] [] = (Inr agg2, st2)"
    "dom (entries agg2) = name ` set (self_hosts ?self2)"
    "\<forall>(k, h)\<in>set (inventory_hosts ex_nornir).
        h \<notin> set (self_hosts ?self2) \<longrightarrow> name h \<notin> dom (entries agg2)"
    unfolding ex_runner_def by blast
  have "ex_host3 \<notin> set (self_hosts ?self2)" by (simp add: hs2) (simp add: ex_defs)
  with b(3) in3 have "name ex_host3 \<notin> dom (entries agg2)" by blast
  then have two: "\<exists>agg st'. run ?self2 [] [] = (Inr agg, st')
        \<and> dom (entries agg) = {''h1'', ''h2''} \<and> ''h3'' \<notin> dom (entries agg)"
    using b(1,2) by (auto simp: hs2 ex_host1_def ex_host2_def ex_host3_def)
  show ?thesis using names one two by blast
qed

text \<open>
  The claim C4 as stated fails when the task returns one \<^verbatim>\<open>Result\<close> object for two
  hosts: \<^verbatim>\<open>result.ntd = ntd\<close> is written twice into the same object, the key
  \<^verbatim>\<open>r.ntd.host.name\<close> is then the same for both results, and the two selected hosts
  have one entry between them (that of \<^verbatim>\<open>h2\<close>, whose invocation wrote last).
\<close>

theorem shared_Result_one_entry:
  "distinct (map (\<lambda>(k, h). name h) (inventory_hosts ex_nornir))
   \<and> self_hosts (ex_runner (Function ex_shared_fn)) = [ex_host1, ex_host2]
   \<and> fst (run (ex_runner (Function ex_shared_fn)) [] ex_store) =
       Inr \<lparr> agg_name = ''function'', entries = [''h2'' \<mapsto> 0] \<rparr>"
  by (simp add: ex_defs run_defs)

section \<open>The entry points that return futures\<close>

text \<open>
  Claim C3, as the code has it.  \<^verbatim>\<open>async_with_futures\<close> returns one handle per host;
  when awaiting the task for a host raises an instance of \<^verbatim>\<open>Exception\<close>, the handle of
  that host raises \<^verbatim>\<open>FutureException\<close> with that exception and the
  \<^verbatim>\<open>NornirTaskData\<close> of the host, and no \<^verbatim>\<open>Result\<close> is made.
\<close>

theorem async_with_futures_raises_FutureException:
  "length (async_with_futures self kw) = length (self_hosts self)
   \<and> (\<forall>i<length (self_hosts self). \<forall>e.
         await_call (self_task self) (mk_ntd self (self_hosts self ! i)) kw = Inl e
         \<and> isinstance_Exception e \<longrightarrow>
         async_with_futures self kw ! i =
           Inl (FutureException e (mk_ntd self (self_hosts self ! i))))"
  by (simp add: async_with_futures_def futures_wrapper_def)

theorem async_with_futures_raises_FutureException_witness:
  "async_with_futures (ex_runner (CoroutineFunction ex_raise_fn)) [] ! 0 =
     Inl (FutureException (PyException ''ValueError'')
            (mk_ntd (ex_runner (CoroutineFunction ex_raise_fn)) ex_host1))
   \<and> length (async_with_futures (ex_runner (CoroutineFunction ex_raise_fn)) []) = 2"
  using async_with_futures_raises_FutureException [of "ex_runner (CoroutineFunction ex_raise_fn)" "[]"]
  by (simp add: ex_defs)

text \<open>
  The claim C3 as stated fails for \<^verbatim>\<open>sync_with_futures\<close>, which submits
  \<^verbatim>\<open>_func_wrapper\<close>: the handles of a task that raises \<^verbatim>\<open>ValueError\<close> resolve
  to \<^verbatim>\<open>Result\<close> objects that hold the exception.  It also fails for an exception that
  is not an instance of \<^verbatim>\<open>Exception\<close>, which \<^verbatim>\<open>_futures_wrapper\<close> lets through
  as it is.
\<close>

theorem sync_with_futures_yields_Result:
  "self_hosts (ex_runner (Function ex_raise_fn)) = [ex_host1, ex_host2]
   \<and> sync_with_futures (ex_runner (Function ex_raise_fn)) [] [] =
      ([Inr 0, Inr 1],
       [Result_init (mk_ntd (ex_runner (Function ex_raise_fn)) ex_host1) PyNone
          (Some (PyException ''ValueError'')),
        Result_init (mk_ntd (ex_runner (Function ex_raise_fn)) ex_host2) PyNone
          (Some (PyException ''ValueError''))])
   \<and> async_with_futures (ex_runner (CoroutineFunction ex_exit_fn)) [] =
      [Inl (PyBaseException ''SystemExit''), Inr (PyStr ''ok'')]"
  by (simp add: ex_defs run_defs sync_with_futures_def async_with_futures_def futures_wrapper_def)

end
